theory Spec2Isabelle
  imports Main
begin

text \<open>
  A model of the webhook commands of the Helius command line client: the API client
  (\<^verbatim>\<open>src/api.ts\<close>, in its later version, the one with the collection lookup), the
  configuration check (\<^verbatim>\<open>src/config.ts\<close>) and the commands \<^verbatim>\<open>webhooks create\<close> and
  \<^verbatim>\<open>webhooks delete\<close> with the interactive prompt (\<^verbatim>\<open>src/commands/webhooks.ts\<close>, the
  later of the two versions the file holds, lines 401 to 1025; the line numbers below are
  those of this file).

  A run of a command is modelled by what it does to the outside world, in order (a list of
  events), and by how it ends. The service and the user are parameters: the service by its
  answers to the requests, the user by what is entered at each question.
\<close>

section \<open>JavaScript primitives used by the commands\<close>

text \<open>
  Strings are lists of characters; the model covers ASCII text, which is what the fixed
  enumerations of the program consist of. \<open>trim\<close> removes leading and trailing white
  space, \<open>toUpperCase\<close> maps \<open>a..z\<close> to \<open>A..Z\<close>, and \<open>split_comma s\<close> is
  \<^verbatim>\<open>s.split(",")\<close>: it never returns an empty array (\<^verbatim>\<open>"".split(",")\<close> is \<^verbatim>\<open>[""]\<close>).
\<close>

definition isWhiteSpace :: "char \<Rightarrow> bool" where
  "isWhiteSpace c = (c \<in> set [CHR 0x09, CHR 0x0A, CHR 0x0B, CHR 0x0C, CHR 0x0D, CHR '' ''])"

definition trim :: "string \<Rightarrow> string" where
  "trim s = rev (dropWhile isWhiteSpace (rev (dropWhile isWhiteSpace s)))"

definition toUpperChar :: "char \<Rightarrow> char" where
  "toUpperChar c =
     (case map_of (zip ''abcdefghijklmnopqrstuvwxyz'' ''ABCDEFGHIJKLMNOPQRSTUVWXYZ'') c of
        Some u \<Rightarrow> u
      | None \<Rightarrow> c)"

definition toUpperCase :: "string \<Rightarrow> string" where
  "toUpperCase s = map toUpperChar s"

fun split_comma :: "string \<Rightarrow> string list" where
  "split_comma [] = [[]]"
| "split_comma (c # cs) =
     (if c = CHR '','' then [] # split_comma cs
      else (case split_comma cs of [] \<Rightarrow> [[c]] | t # ts \<Rightarrow> (c # t) # ts))"

text \<open>Decimal rendering of a number inside a template literal.\<close>

fun show_nat :: "nat \<Rightarrow> string" where
  "show_nat n =
     (if n < 10 then [''0123456789'' ! n]
      else show_nat (n div 10) @ [''0123456789'' ! (n mod 10)])"

declare show_nat.simps [simp del]

text \<open>
  An option of the command line or a value tested by \<^verbatim>\<open>if (x)\<close>: \<^verbatim>\<open>undefined\<close> and the
  empty string are falsy, every other string is truthy.
\<close>

fun truthy :: "string option \<Rightarrow> bool" where
  "truthy None = False"
| "truthy (Some s) = (s \<noteq> [])"

section \<open>Data model\<close>

text \<open>The fixed enumerations of \<^verbatim>\<open>src/commands/webhooks.ts\<close>.\<close>

definition TRANSACTION_TYPES :: "string list" where
  "TRANSACTION_TYPES =
     [''ANY'', ''NFT_SALE'', ''NFT_LISTING'', ''NFT_CANCEL_LISTING'', ''NFT_MINT'',
      ''NFT_AUCTION_CREATED'', ''NFT_BID'', ''NFT_AUCTION_COMPLETE'', ''SWAP'', ''SWAP_SOL'',
      ''SWAP_TOKEN'', ''TOKEN_MINT'', ''TOKEN_BURN'', ''TRANSFER'', ''SOL_TRANSFER'', ''STAKE'',
      ''STAKE_DELEGATION'', ''UNSTAKE'', ''VOTE'', ''UNKNOWN'']"

definition WEBHOOK_TYPES :: "string list" where
  "WEBHOOK_TYPES =
     [''raw'', ''rawDevnet'', ''enhanced'', ''enhancedDevnet'', ''discord'', ''discordDevnet'']"

definition TXN_STATUS_OPTIONS :: "string list" where
  "TXN_STATUS_OPTIONS = [''all'', ''success'', ''failed'']"

definition SKIP_STATUS :: string where
  "SKIP_STATUS = ''Skip (don't filter by status)''"

text \<open>
  \<^verbatim>\<open>Omit<Webhook, "webhookID">\<close>, the draft handed to \<^verbatim>\<open>createWebhook\<close>; an optional
  field that is \<^verbatim>\<open>undefined\<close> is \<open>None\<close>. \<open>webhook\<close> is the record the service returns.
\<close>

record webhook_data =
  webhookURL :: string
  webhookType :: string
  transactionTypes :: "string list"
  accountAddresses :: "string list"
  authHeader :: "string option"
  txnStatus :: "string option"

record webhook = webhook_data +
  webhookID :: string
  encoding :: "string option"
  encoding_config :: "(string \<times> string) option"

text \<open>
  What the program does to the outside world, in program order: console and spinner output
  (colours left out), the questions put to the user (by question name and message), and the
  requests sent to the service.
\<close>

datatype event =
    ConsoleLog string
  | ConsoleError string
  | SpinnerStart string
  | SpinnerSucceed string
  | SpinnerFail string
  | Prompt string string
  | DasRequest string nat
  | CreateWebhook webhook_data
  | DeleteWebhook string
  | ShowWebhook webhook

text \<open>
  How a piece of the program ends: it yields a value, it waits for ever at a prompt whose
  validation the user never satisfies, or it leaves through \<^verbatim>\<open>process.exit\<close>.
\<close>

datatype 'a outcome = Done 'a | Blocked | Exited nat

section \<open>The API client\<close>

text \<open>
  A failed axios call carries a response (status and serialised body), or a request that got
  no response, or neither. \<open>request_error\<close> is the message of the \<^verbatim>\<open>Error\<close> thrown
  by \<^verbatim>\<open>request\<close>, \<open>collection_error\<close> the one thrown by
  \<^verbatim>\<open>getNftAddressesFromCollection\<close>.
\<close>

datatype axios_error = ResponseError nat string | NoResponse | SetupError string

fun request_error :: "axios_error \<Rightarrow> string" where
  "request_error (ResponseError status body) = ''API Error: '' @ show_nat status @ '' - '' @ body"
| "request_error NoResponse = ''No response received from API''"
| "request_error (SetupError message) = ''Error setting up request: '' @ message"

fun collection_error :: "axios_error \<Rightarrow> string" where
  "collection_error (ResponseError status body) =
     ''API Error: '' @ show_nat status @ '' - '' @ body"
| "collection_error NoResponse = ''No response received from API''"
| "collection_error (SetupError message) = ''Error fetching NFT addresses: '' @ message"

text \<open>
  The body of a \<^verbatim>\<open>getAssetsByGroup\<close> answer: \<^verbatim>\<open>result\<close> may be missing, its
  \<^verbatim>\<open>items\<close> may be missing, or it lists items, each given here by its \<^verbatim>\<open>id\<close>.
\<close>

datatype das_result = ResultMissing | ItemsMissing | Items "string list"

text \<open>
  What the client runs against. The service: its answer to the request for a page of a
  collection, to a creation and to a deletion. The JavaScript engine: \<open>spreadLimit\<close> is the
  largest number of arguments one call can take; \<^verbatim>\<open>nftAddresses.push(...addresses)\<close> passes
  every address of a page as an argument and throws a \<^verbatim>\<open>RangeError\<close> beyond that number. The
  number depends on the engine and its stack size and is a parameter here.
\<close>

record api =
  getAssetsByGroup :: "string \<Rightarrow> nat \<Rightarrow> axios_error + das_result"
  postWebhook :: "webhook_data \<Rightarrow> axios_error + webhook"
  deleteWebhook :: "string \<Rightarrow> axios_error + bool"
  spreadLimit :: nat

text \<open>
  The \<^verbatim>\<open>while (hasMorePages)\<close> loop of \<^verbatim>\<open>getNftAddressesFromCollection\<close> (lines 285 to
  353 of the API client), with the page
  counter, the addresses pushed so far and the requests made so far. The loop has no bound on
  the number of pages: on a service that always fills the page it never returns, which is the
  value \<open>None\<close>. The error of a page too large to be pushed is caught by the function
  like every other one; it carries neither response nor request, and its message is the one
  of Node.js.
\<close>

partial_function (option) fetchPages ::
  "(nat \<Rightarrow> axios_error + das_result) \<Rightarrow> nat \<Rightarrow> string \<Rightarrow> nat \<Rightarrow> string list
     \<Rightarrow> event list \<Rightarrow> (event list \<times> (axios_error + string list)) option"
where
  "fetchPages server limit collectionAddress page nftAddresses reqs =
     (case server page of
        Inl err \<Rightarrow> Some (reqs @ [DasRequest collectionAddress page], Inl err)
      | Inr ResultMissing \<Rightarrow> Some (reqs @ [DasRequest collectionAddress page], Inr nftAddresses)
      | Inr ItemsMissing \<Rightarrow> Some (reqs @ [DasRequest collectionAddress page], Inr nftAddresses)
      | Inr (Items items) \<Rightarrow>
          if length items = 0
          then Some (reqs @ [DasRequest collectionAddress page], Inr nftAddresses)
          else if limit < length items
          then Some (reqs @ [DasRequest collectionAddress page],
                     Inl (SetupError ''Maximum call stack size exceeded''))
          else if length items < 1000
          then Some (reqs @ [DasRequest collectionAddress page], Inr (nftAddresses @ items))
          else fetchPages server limit collectionAddress (page + 1) (nftAddresses @ items)
                 (reqs @ [DasRequest collectionAddress page]))"

declare fetchPages.simps [code]

definition getNftAddressesFromCollection ::
  "api \<Rightarrow> string \<Rightarrow> (event list \<times> (string + string list)) option"
where
  "getNftAddressesFromCollection a collectionAddress =
     (case fetchPages (getAssetsByGroup a collectionAddress) (spreadLimit a)
             collectionAddress 1 [] [] of
        None \<Rightarrow> None
      | Some (reqs, Inl err) \<Rightarrow> Some (reqs, Inl (collection_error err))
      | Some (reqs, Inr nftAddresses) \<Rightarrow> Some (reqs, Inr nftAddresses))"

text \<open>The items of a page as the loop reads them: nothing when the result or its items are missing.\<close>

fun page_items :: "axios_error + das_result \<Rightarrow> string list" where
  "page_items (Inr (Items items)) = items"
| "page_items _ = []"

fun page_failed :: "axios_error + das_result \<Rightarrow> bool" where
  "page_failed (Inl err) = True"
| "page_failed (Inr r) = False"

section \<open>The user and the prompts\<close>

text \<open>
  The prompt library is not part of the repository. A question is modelled by the functions
  the program gives it: \<^verbatim>\<open>validate\<close> and \<^verbatim>\<open>filter\<close> are each applied to the text the user
  entered, as their parameter \<^verbatim>\<open>(input: string)\<close> says. A question with a \<^verbatim>\<open>validate\<close>
  function is asked until an entry passes it; the answer is the first entry that does (passed
  through \<^verbatim>\<open>filter\<close> when there is one), and when none does the prompt never resolves.
\<close>

fun first_valid :: "('a \<Rightarrow> bool) \<Rightarrow> 'a list \<Rightarrow> 'a option" where
  "first_valid validate [] = None"
| "first_valid validate (input # later) =
     (if validate input then Some input else first_valid validate later)"

text \<open>A \<^verbatim>\<open>list\<close> question resolves with one of its choices.\<close>

definition list_prompt :: "string list \<Rightarrow> string \<Rightarrow> string option" where
  "list_prompt choices pick = (if pick \<in> set choices then Some pick else None)"

text \<open>
  A \<^verbatim>\<open>checkbox\<close> question resolves with the ticked choices, in the order of the choices.
\<close>

definition checkbox_prompt ::
  "string list \<Rightarrow> (string list \<Rightarrow> bool) \<Rightarrow> string list list \<Rightarrow> string list option"
where
  "checkbox_prompt choices validate ticks =
     first_valid validate (map (\<lambda>ticked. filter (\<lambda>c. c \<in> set ticked) choices) ticks)"

text \<open>
  What the user would enter at each question, were it asked: for a validated question the
  successive entries, for a confirmation the answer. The two confirmations of the inclusion
  of collection addresses (the one of the \<^verbatim>\<open>--collection\<close> option and the one inside the
  interactive prompt) are distinct questions.
\<close>

record user =
  u_apiKey :: "string list"
  u_webhookURL :: "string list"
  u_webhookType :: string
  u_authHeader :: string
  u_txnStatus :: string
  u_transactionTypes :: "string list list"
  u_useCollection :: bool
  u_collectionAddress :: "string list"
  u_confirmCollection :: bool
  u_accountAddresses :: "string list"
  u_additionalAddresses :: "string list"
  u_confirmOption :: bool
  u_confirmDelete :: bool

text \<open>The options of \<^verbatim>\<open>webhooks create\<close> as commander hands them to the action.\<close>

record options =
  opt_url :: "string option"
  opt_type :: "string option"
  opt_authHeader :: "string option"
  opt_status :: "string option"
  opt_types :: "string option"
  opt_addresses :: "string option"
  opt_collection :: "string option"
  opt_interactive :: bool

text \<open>
  Sequencing: the second part runs on the value of the first when the first yields one;
  a part that never returns (\<open>None\<close>), blocks or exits ends the whole.
\<close>

type_synonym 'a io = "(event list \<times> 'a outcome) option"

fun then_io :: "'a io \<Rightarrow> ('a \<Rightarrow> 'b io) \<Rightarrow> 'b io" where
  "then_io None k = None"
| "then_io (Some (ev, Done x)) k =
     (case k x of None \<Rightarrow> None | Some (ev', r) \<Rightarrow> Some (ev @ ev', r))"
| "then_io (Some (ev, Blocked)) k = Some (ev, Blocked)"
| "then_io (Some (ev, Exited code)) k = Some (ev, Exited code)"

section \<open>Configuration\<close>

text \<open>
  \<^verbatim>\<open>ensureConfig\<close> of \<^verbatim>\<open>src/config.ts\<close>, on the API key currently configured: it asks
  for the key only when none is set. The write of the configuration file is not traced.
\<close>

definition ensureConfig :: "string \<Rightarrow> user \<Rightarrow> event list \<times> bool outcome" where
  "ensureConfig apiKey usr =
     (if apiKey \<noteq> [] then ([], Done True)
      else
        (case first_valid (\<lambda>input. trim input \<noteq> []) (u_apiKey usr) of
           None \<Rightarrow>
             ([ConsoleLog ''Some configuration values are missing. Let's set them up:'',
               Prompt ''apiKey'' ''Enter your Helius API key:''], Blocked)
         | Some answer \<Rightarrow>
             ([ConsoleLog ''Some configuration values are missing. Let's set them up:'',
               Prompt ''apiKey'' ''Enter your Helius API key:'',
               ConsoleLog ''Configuration updated successfully!''], Done True)))"

section \<open>Interactive creation: \<^verbatim>\<open>promptForWebhookData\<close>\<close>

record basic_answers =
  a_webhookURL :: string
  a_webhookType :: string
  a_authHeader :: string
  a_txnStatus :: string
  a_transactionTypes :: "string list"

definition Q_webhookURL :: event where
  "Q_webhookURL = Prompt ''webhookURL'' ''Enter the webhook URL:''"

definition Q_webhookType :: event where
  "Q_webhookType = Prompt ''webhookType'' ''Select the webhook type:''"

definition Q_authHeader :: event where
  "Q_authHeader = Prompt ''authHeader'' ''Enter an authorization header (optional):''"

definition Q_txnStatus :: event where
  "Q_txnStatus = Prompt ''txnStatus'' ''Select transaction status to monitor:''"

definition Q_transactionTypes :: event where
  "Q_transactionTypes = Prompt ''transactionTypes'' ''Select transaction types to monitor:''"

text \<open>The five basic questions (lines 819 to 856), asked in one call of \<^verbatim>\<open>inquirer.prompt\<close>.\<close>

definition basic_questions :: "user \<Rightarrow> event list \<times> basic_answers outcome" where
  "basic_questions usr =
     (case first_valid (\<lambda>input. trim input \<noteq> []) (u_webhookURL usr) of
        None \<Rightarrow> ([Q_webhookURL], Blocked)
      | Some url \<Rightarrow>
     (case list_prompt WEBHOOK_TYPES (u_webhookType usr) of
        None \<Rightarrow> ([Q_webhookURL, Q_webhookType], Blocked)
      | Some kind \<Rightarrow>
     (case list_prompt (TXN_STATUS_OPTIONS @ [SKIP_STATUS]) (u_txnStatus usr) of
        None \<Rightarrow> ([Q_webhookURL, Q_webhookType, Q_authHeader, Q_txnStatus], Blocked)
      | Some status \<Rightarrow>
     (case checkbox_prompt TRANSACTION_TYPES (\<lambda>input. length input > 0)
             (u_transactionTypes usr) of
        None \<Rightarrow>
          ([Q_webhookURL, Q_webhookType, Q_authHeader, Q_txnStatus, Q_transactionTypes],
           Blocked)
      | Some types \<Rightarrow>
          ([Q_webhookURL, Q_webhookType, Q_authHeader, Q_txnStatus, Q_transactionTypes],
           Done \<lparr>a_webhookURL = url, a_webhookType = kind, a_authHeader = u_authHeader usr,
                 a_txnStatus = status, a_transactionTypes = types\<rparr>)))))"

text \<open>
  The collection questions (lines 858 to 887), asked only when no addresses are prefilled:
  whether to track a collection and, if so, its address. The result is
  \<^verbatim>\<open>(useCollection, collectionAddress)\<close>.
\<close>

definition collection_questions :: "user \<Rightarrow> string list \<Rightarrow> event list \<times> (bool \<times> string) outcome"
where
  "collection_questions usr prefilledAddresses =
     (if length prefilledAddresses = 0 then
        (if u_useCollection usr then
           (case first_valid (\<lambda>input. trim input \<noteq> []) (u_collectionAddress usr) of
              None \<Rightarrow>
                ([Prompt ''useCollection'' ''Do you want to track NFTs from a collection?'',
                  Prompt ''collectionAddress'' ''Enter the collection address:''], Blocked)
            | Some collectionAddress \<Rightarrow>
                ([Prompt ''useCollection'' ''Do you want to track NFTs from a collection?'',
                  Prompt ''collectionAddress'' ''Enter the collection address:''],
                 Done (True, collectionAddress)))
         else
           ([Prompt ''useCollection'' ''Do you want to track NFTs from a collection?''],
            Done (False, [])))
      else ([], Done (False, [])))"

text \<open>
  Resolution of the collection and the confirmation of its inclusion (lines 889 to 942). The
  result is the accumulated \<^verbatim>\<open>accountAddresses\<close> and the flag
  \<^verbatim>\<open>collectionAddressesAdded\<close>. A failed lookup is reported and the flow goes on.
\<close>

definition process_collection ::
  "api \<Rightarrow> user \<Rightarrow> string list \<Rightarrow> bool \<times> string \<Rightarrow> (string list \<times> bool) io"
where
  "process_collection a usr prefilledAddresses uc =
     (case uc of (useCollection, collectionAddress) \<Rightarrow>
      if useCollection \<and> collectionAddress \<noteq> [] then
        (case getNftAddressesFromCollection a collectionAddress of
           None \<Rightarrow> None
         | Some (reqs, Inl message) \<Rightarrow>
             Some (SpinnerStart (''Fetching NFTs from collection '' @ collectionAddress @ ''...'')
                   # reqs
                   @ [SpinnerFail (''Failed to fetch NFTs from collection: '' @ message)],
                   Done (prefilledAddresses, False))
         | Some (reqs, Inr nftAddresses) \<Rightarrow>
             if length nftAddresses = 0 then
               Some (SpinnerStart (''Fetching NFTs from collection '' @ collectionAddress @ ''...'')
                     # reqs
                     @ [SpinnerSucceed (''Found '' @ show_nat (length nftAddresses)
                          @ '' NFTs in collection '' @ collectionAddress),
                        ConsoleLog
                          ''No NFTs found in the collection. Please check the collection address.''],
                     Done (prefilledAddresses, False))
             else if u_confirmCollection usr then
               Some (SpinnerStart (''Fetching NFTs from collection '' @ collectionAddress @ ''...'')
                     # reqs
                     @ [SpinnerSucceed (''Found '' @ show_nat (length nftAddresses)
                          @ '' NFTs in collection '' @ collectionAddress),
                        Prompt ''confirm'' (''Do you want to add '' @ show_nat (length nftAddresses)
                          @ '' NFT addresses from this collection to your webhook?''),
                        ConsoleLog (''Added '' @ show_nat (length nftAddresses)
                          @ '' NFT addresses from collection to the webhook.'')],
                     Done (prefilledAddresses @ nftAddresses, True))
             else
               Some (SpinnerStart (''Fetching NFTs from collection '' @ collectionAddress @ ''...'')
                     # reqs
                     @ [SpinnerSucceed (''Found '' @ show_nat (length nftAddresses)
                          @ '' NFTs in collection '' @ collectionAddress),
                        Prompt ''confirm'' (''Do you want to add '' @ show_nat (length nftAddresses)
                          @ '' NFT addresses from this collection to your webhook?''),
                        ConsoleLog ''NFT addresses from collection not added.''],
                     Done (prefilledAddresses, False)))
      else Some ([], Done (prefilledAddresses, False)))"

text \<open>
  The question for further addresses (lines 944 to 988): \<^verbatim>\<open>validate\<close> and \<^verbatim>\<open>filter\<close> of
  the question, each on the text the user entered, and the merge of the answer into the
  accumulated addresses.
\<close>

definition addressRequired :: "string list \<Rightarrow> bool \<Rightarrow> bool" where
  "addressRequired prefilledAddresses collectionAddressesAdded =
     (\<not> (length prefilledAddresses > 0 \<or> collectionAddressesAdded))"

definition address_validate :: "bool \<Rightarrow> string \<Rightarrow> bool" where
  "address_validate required input = (if \<not> required then True else trim input \<noteq> [])"

definition address_filter :: "string \<Rightarrow> string list" where
  "address_filter input = (if input \<noteq> [] then map trim (split_comma input) else [])"

definition addressPromptMessage :: "string list \<Rightarrow> bool \<Rightarrow> string" where
  "addressPromptMessage prefilledAddresses collectionAddressesAdded =
     (if length prefilledAddresses > 0
      then ''Enter additional account addresses to monitor (comma-separated, optional):''
      else if collectionAddressesAdded
      then ''Enter additional account addresses to monitor (comma-separated, optional):''
      else ''Enter account addresses to monitor (comma-separated):'')"

definition address_question ::
  "user \<Rightarrow> string list \<Rightarrow> string list \<times> bool \<Rightarrow> event list \<times> string list outcome"
where
  "address_question usr prefilledAddresses acc =
     (case acc of (addresses, collectionAddressesAdded) \<Rightarrow>
      (case first_valid
              (address_validate (addressRequired prefilledAddresses collectionAddressesAdded))
              (u_accountAddresses usr) of
         None \<Rightarrow>
           ([Prompt ''accountAddresses''
               (addressPromptMessage prefilledAddresses collectionAddressesAdded)], Blocked)
       | Some input \<Rightarrow>
           if length (address_filter input) > 0 then
             ([Prompt ''accountAddresses''
                 (addressPromptMessage prefilledAddresses collectionAddressesAdded),
               ConsoleLog (''Added '' @ show_nat (length (address_filter input))
                 @ '' additional addresses from input.'')],
              Done (addresses @ address_filter input))
           else
             ([Prompt ''accountAddresses''
                 (addressPromptMessage prefilledAddresses collectionAddressesAdded)],
              Done addresses)))"

text \<open>
  The last resort (lines 990 to 1007): with no address at all, ask again and take the answer
  as the addresses.
\<close>

definition require_addresses :: "user \<Rightarrow> string list \<Rightarrow> event list \<times> string list outcome" where
  "require_addresses usr addresses =
     (if length addresses = 0 then
        (case first_valid (\<lambda>input. trim input \<noteq> []) (u_additionalAddresses usr) of
           None \<Rightarrow>
             ([ConsoleLog ''Error: At least one account address is required.'',
               Prompt ''additionalAddresses''
                 ''Enter account addresses to monitor (comma-separated):''], Blocked)
         | Some input \<Rightarrow>
             ([ConsoleLog ''Error: At least one account address is required.'',
               Prompt ''additionalAddresses''
                 ''Enter account addresses to monitor (comma-separated):''],
              Done (map trim (split_comma input))))
      else ([], Done addresses))"

text \<open>
  The returned draft (lines 1009 to 1022). The source computes a local \<^verbatim>\<open>txnStatus\<close> that is \<^verbatim>\<open>undefined\<close> for
  the skip choice (\<open>txnStatus_special_case\<close>), and then returns
  \<^verbatim>\<open>txnStatus: basicAnswers.txnStatus\<close>; the local is not used.
\<close>

definition txnStatus_special_case :: "basic_answers \<Rightarrow> string list option" where
  "txnStatus_special_case basicAnswers =
     (if a_txnStatus basicAnswers = SKIP_STATUS then None else Some [a_txnStatus basicAnswers])"

definition prompt_result :: "basic_answers \<Rightarrow> string list \<Rightarrow> webhook_data" where
  "prompt_result basicAnswers addresses =
     (let txnStatus_local = txnStatus_special_case basicAnswers in
      \<lparr>webhookURL = a_webhookURL basicAnswers,
       webhookType = a_webhookType basicAnswers,
       transactionTypes = a_transactionTypes basicAnswers,
       accountAddresses = addresses,
       authHeader = (if a_authHeader basicAnswers \<noteq> [] then Some (a_authHeader basicAnswers)
                     else None),
       txnStatus = Some (a_txnStatus basicAnswers)\<rparr>)"

definition promptForWebhookData :: "api \<Rightarrow> user \<Rightarrow> string list \<Rightarrow> webhook_data io" where
  "promptForWebhookData a usr prefilledAddresses =
     then_io (Some ([ConsoleLog (CHR 0x0A # ''Create a new webhook:'')], Done ())) (\<lambda>_.
     then_io (Some (basic_questions usr)) (\<lambda>basicAnswers.
     then_io (Some (collection_questions usr prefilledAddresses)) (\<lambda>uc.
     then_io (process_collection a usr prefilledAddresses uc) (\<lambda>acc.
     then_io (Some (address_question usr prefilledAddresses acc)) (\<lambda>addresses.
     then_io (Some (require_addresses usr addresses)) (\<lambda>addresses'.
     Some ([], Done (prompt_result basicAnswers addresses'))))))))"

section \<open>The \<^verbatim>\<open>webhooks create\<close> action\<close>

text \<open>\<^verbatim>\<open>xs.join(", ")\<close>.\<close>

fun join_comma :: "string list \<Rightarrow> string" where
  "join_comma [] = []"
| "join_comma [x] = x"
| "join_comma (x # y # zs) = x @ '', '' @ join_comma (y # zs)"

text \<open>The text of an option; it is read only after the option was found truthy.\<close>

fun text_of :: "string option \<Rightarrow> string" where
  "text_of None = []"
| "text_of (Some s) = s"

text \<open>
  The \<^verbatim>\<open>--collection\<close> option (lines 583 to 633), processed first, for both modes: the
  collection is looked up and, when it has NFTs, the user is asked whether to add them. The
  result is the initial \<^verbatim>\<open>accountAddresses\<close>.
\<close>

definition resolve_collection :: "api \<Rightarrow> user \<Rightarrow> options \<Rightarrow> string list io" where
  "resolve_collection a usr opts =
     (if truthy (opt_collection opts) then
        (case getNftAddressesFromCollection a (text_of (opt_collection opts)) of
           None \<Rightarrow> None
         | Some (reqs, Inl message) \<Rightarrow>
             Some (SpinnerStart (''Fetching NFTs from collection ''
                     @ text_of (opt_collection opts) @ ''...'')
                   # reqs
                   @ [SpinnerFail (''Failed to fetch NFTs from collection: '' @ message),
                      ConsoleLog ''Continuing without collection NFTs...''],
                   Done [])
         | Some (reqs, Inr nftAddresses) \<Rightarrow>
             if length nftAddresses = 0 then
               Some (SpinnerStart (''Fetching NFTs from collection ''
                       @ text_of (opt_collection opts) @ ''...'')
                     # reqs
                     @ [SpinnerSucceed (''Found '' @ show_nat (length nftAddresses)
                          @ '' NFTs in collection '' @ text_of (opt_collection opts)),
                        ConsoleLog
                          ''No NFTs found in the collection. Please check the collection address.''],
                     Done [])
             else if u_confirmOption usr then
               Some (SpinnerStart (''Fetching NFTs from collection ''
                       @ text_of (opt_collection opts) @ ''...'')
                     # reqs
                     @ [SpinnerSucceed (''Found '' @ show_nat (length nftAddresses)
                          @ '' NFTs in collection '' @ text_of (opt_collection opts)),
                        Prompt ''confirm'' (''Do you want to add '' @ show_nat (length nftAddresses)
                          @ '' NFT addresses from this collection to your webhook?''),
                        ConsoleLog (''Added '' @ show_nat (length nftAddresses)
                          @ '' NFT addresses to the webhook.'')],
                     Done nftAddresses)
             else
               Some (SpinnerStart (''Fetching NFTs from collection ''
                       @ text_of (opt_collection opts) @ ''...'')
                     # reqs
                     @ [SpinnerSucceed (''Found '' @ show_nat (length nftAddresses)
                          @ '' NFTs in collection '' @ text_of (opt_collection opts)),
                        Prompt ''confirm'' (''Do you want to add '' @ show_nat (length nftAddresses)
                          @ '' NFT addresses from this collection to your webhook?''),
                        ConsoleLog ''NFT addresses not added.''],
                     Done []))
      else Some ([], Done []))"

text \<open>Command line mode: the three required options (lines 640 to 668).\<close>

definition require_options :: "options \<Rightarrow> event list \<times> unit outcome" where
  "require_options opts =
     (if \<not> truthy (opt_url opts) then
        ([ConsoleError ''Error: Webhook URL is required for non-interactive mode'',
          ConsoleLog ''Use --url option or --interactive mode''], Exited 1)
      else if \<not> truthy (opt_type opts) then
        ([ConsoleError ''Error: Webhook type is required for non-interactive mode'',
          ConsoleLog ''Use --type option or --interactive mode''], Exited 1)
      else if \<not> truthy (opt_types opts) then
        ([ConsoleError ''Error: Transaction types are required for non-interactive mode'',
          ConsoleLog ''Use --types option or --interactive mode''], Exited 1)
      else ([], Done ()))"

text \<open>
  The transaction types are parsed, and the first one outside the enumeration ends the command
  (lines 670 to 684).
\<close>

definition parse_types :: "string \<Rightarrow> string list" where
  "parse_types types = map (\<lambda>t. toUpperCase (trim t)) (split_comma types)"

definition validate_types :: "options \<Rightarrow> event list \<times> string list outcome" where
  "validate_types opts =
     (case find (\<lambda>t. t \<notin> set TRANSACTION_TYPES) (parse_types (text_of (opt_types opts))) of
        Some t \<Rightarrow>
          ([ConsoleError (''Error: Invalid transaction type: '' @ t),
            ConsoleLog (''Valid types are: '' @ join_comma TRANSACTION_TYPES)], Exited 1)
      | None \<Rightarrow> ([], Done (parse_types (text_of (opt_types opts)))))"

text \<open>
  The addresses (lines 686 to 717): those of the collection if there are any, followed by
  those of \<^verbatim>\<open>--addresses\<close>; without addresses from the collection, \<^verbatim>\<open>--addresses\<close> is
  required.
\<close>

definition parse_addresses :: "string \<Rightarrow> string list" where
  "parse_addresses addresses = map trim (split_comma addresses)"

definition command_line_addresses :: "options \<Rightarrow> string list \<Rightarrow> event list \<times> string list outcome"
where
  "command_line_addresses opts addresses =
     (if length addresses = 0 then
        (if \<not> truthy (opt_addresses opts) then
           ([ConsoleError ''Error: Account addresses are required for non-interactive mode'',
             ConsoleLog ''Use --addresses option, --collection option, or --interactive mode''],
            Exited 1)
         else ([], Done (parse_addresses (text_of (opt_addresses opts)))))
      else if truthy (opt_addresses opts) then
        ([ConsoleLog (''Added ''
            @ show_nat (length (parse_addresses (text_of (opt_addresses opts))))
            @ '' additional addresses from command line.'')],
         Done (addresses @ parse_addresses (text_of (opt_addresses opts))))
      else ([], Done addresses))"

text \<open>
  The webhook type and, when given, the transaction status are checked last (lines 719 to
  735); then the draft is assembled (lines 737 to 744).
\<close>

definition validate_type_status :: "options \<Rightarrow> event list \<times> unit outcome" where
  "validate_type_status opts =
     (if text_of (opt_type opts) \<notin> set WEBHOOK_TYPES then
        ([ConsoleError (''Error: Invalid webhook type: '' @ text_of (opt_type opts)),
          ConsoleLog (''Valid types are: '' @ join_comma WEBHOOK_TYPES)], Exited 1)
      else if truthy (opt_status opts) \<and> text_of (opt_status opts) \<notin> set TXN_STATUS_OPTIONS then
        ([ConsoleError (''Error: Invalid transaction status: '' @ text_of (opt_status opts)),
          ConsoleLog (''Valid options are: '' @ join_comma TXN_STATUS_OPTIONS)], Exited 1)
      else ([], Done ()))"

definition command_line_data :: "options \<Rightarrow> string list \<Rightarrow> webhook_data io" where
  "command_line_data opts addresses =
     then_io (Some (require_options opts)) (\<lambda>_.
     then_io (Some (validate_types opts)) (\<lambda>types.
     then_io (Some (command_line_addresses opts addresses)) (\<lambda>addresses'.
     then_io (Some (validate_type_status opts)) (\<lambda>_.
     Some ([], Done
       \<lparr>webhookURL = text_of (opt_url opts),
        webhookType = text_of (opt_type opts),
        transactionTypes = types,
        accountAddresses = addresses',
        authHeader = opt_authHeader opts,
        txnStatus = (if truthy (opt_status opts) then opt_status opts else None)\<rparr>)))))"

text \<open>
  The one creation request (lines 747 to 758); an error of the request is caught by the
  action, printed, and ends the process with status 1. The rendering of the created webhook
  is not modelled.
\<close>

definition submit :: "api \<Rightarrow> webhook_data \<Rightarrow> event list \<times> unit outcome" where
  "submit a webhookData =
     (case postWebhook a webhookData of
        Inr created \<Rightarrow>
          ([SpinnerStart ''Creating webhook...'', CreateWebhook webhookData,
            SpinnerSucceed ''Webhook created successfully'', ShowWebhook created], Done ())
      | Inl err \<Rightarrow>
          ([SpinnerStart ''Creating webhook...'', CreateWebhook webhookData,
            ConsoleError (''Error creating webhook: '' @ request_error err)], Exited 1))"

definition create_action :: "string \<Rightarrow> api \<Rightarrow> user \<Rightarrow> options \<Rightarrow> unit io" where
  "create_action apiKey a usr opts =
     then_io (Some (ensureConfig apiKey usr)) (\<lambda>_.
     then_io (resolve_collection a usr opts) (\<lambda>addresses.
     then_io (if opt_interactive opts then promptForWebhookData a usr addresses
              else command_line_data opts addresses) (\<lambda>webhookData.
     Some (submit a webhookData))))"

section \<open>The \<^verbatim>\<open>webhooks delete\<close> action\<close>

text \<open>
  The confirmation (lines 772 to 787), skipped with \<^verbatim>\<open>--force\<close>; the result tells whether
  to go on. The request and its report are lines 789 to 804.
\<close>

definition confirm_deletion :: "user \<Rightarrow> string \<Rightarrow> bool \<Rightarrow> event list \<times> bool outcome" where
  "confirm_deletion usr ident force =
     (if \<not> force then
        (if \<not> u_confirmDelete usr then
           ([Prompt ''confirm'' (''Are you sure you want to delete webhook '' @ ident @ ''?''),
             ConsoleLog ''Deletion cancelled''], Done False)
         else
           ([Prompt ''confirm'' (''Are you sure you want to delete webhook '' @ ident @ ''?'')],
            Done True))
      else ([], Done True))"

definition delete_request :: "api \<Rightarrow> string \<Rightarrow> event list \<times> unit outcome" where
  "delete_request a ident =
     (case deleteWebhook a ident of
        Inr success \<Rightarrow>
          if success then
            ([SpinnerStart (''Deleting webhook '' @ ident @ ''...''), DeleteWebhook ident,
              SpinnerSucceed (''Successfully deleted webhook '' @ ident)], Done ())
          else
            ([SpinnerStart (''Deleting webhook '' @ ident @ ''...''), DeleteWebhook ident,
              SpinnerFail (''Failed to delete webhook '' @ ident)], Done ())
      | Inl err \<Rightarrow>
          ([SpinnerStart (''Deleting webhook '' @ ident @ ''...''), DeleteWebhook ident,
            ConsoleError (''Error deleting webhook: '' @ request_error err)], Exited 1))"

definition delete_action :: "string \<Rightarrow> api \<Rightarrow> user \<Rightarrow> string \<Rightarrow> bool \<Rightarrow> unit io" where
  "delete_action apiKey a usr ident force =
     then_io (Some (ensureConfig apiKey usr)) (\<lambda>_.
     then_io (Some (confirm_deletion usr ident force)) (\<lambda>proceed.
     if proceed then Some (delete_request a ident) else Some ([], Done ())))"

section \<open>Observing a run\<close>

text \<open>The drafts sent to \<^verbatim>\<open>createWebhook\<close> during a run, in order.\<close>

fun created :: "event list \<Rightarrow> webhook_data list" where
  "created [] = []"
| "created (CreateWebhook d # es) = d # created es"
| "created (e # es) = created es"

section \<open>Scenarios\<close>

text \<open>
  Concrete services, users and command lines on which the theorems below are instantiated.
  \<open>service pages\<close> answers the page requests by \<open>pages\<close>, echoes a created webhook under
  the identifier \<open>wh-1\<close>, and answers a deletion with \<^verbatim>\<open>{success: false}\<close>; the engine
  takes up to 100000 arguments in a call.
\<close>

definition echo :: "webhook_data \<Rightarrow> axios_error + webhook" where
  "echo d =
     Inr \<lparr>webhookURL = webhookURL d, webhookType = webhookType d,
          transactionTypes = transactionTypes d, accountAddresses = accountAddresses d,
          authHeader = authHeader d, txnStatus = txnStatus d,
          webhookID = ''wh-1'', encoding = None, encoding_config = None\<rparr>"

definition service :: "(nat \<Rightarrow> axios_error + das_result) \<Rightarrow> api" where
  "service pages =
     \<lparr>getAssetsByGroup = (\<lambda>collectionAddress. pages), postWebhook = echo,
      deleteWebhook = (\<lambda>ident. Inr False), spreadLimit = 100000\<rparr>"

definition pages_1000_1000_10 :: "nat \<Rightarrow> axios_error + das_result" where
  "pages_1000_1000_10 page =
     Inr (Items (if page \<le> 2 then replicate 1000 ''nft'' else replicate 10 ''nft''))"

definition pages_empty :: "nat \<Rightarrow> axios_error + das_result" where
  "pages_empty page = Inr (Items [])"

definition pages_B_C :: "nat \<Rightarrow> axios_error + das_result" where
  "pages_B_C page = Inr (Items (if page = 1 then [''B'', ''C''] else []))"

definition alice :: user where
  "alice =
     \<lparr>u_apiKey = [], u_webhookURL = [''https://example.com/hook''],
      u_webhookType = ''enhanced'', u_authHeader = [], u_txnStatus = ''all'',
      u_transactionTypes = [[''NFT_SALE'']], u_useCollection = True,
      u_collectionAddress = [''COLL''], u_confirmCollection = True,
      u_accountAddresses = [''D,E''], u_additionalAddresses = [''F''],
      u_confirmOption = True, u_confirmDelete = True\<rparr>"

definition cli :: options where
  "cli =
     \<lparr>opt_url = Some ''https://example.com/hook'', opt_type = Some ''enhanced'',
      opt_authHeader = None, opt_status = None, opt_types = Some ''nft_sale, swap'',
      opt_addresses = Some ''D,E'', opt_collection = None, opt_interactive = False\<rparr>"

section \<open>Pagination of the collection lookup\<close>

lemma full_page_cases:
  "1000 \<le> length (page_items r) \<Longrightarrow> \<exists>items. r = Inr (Items items) \<and> 1000 \<le> length items"
  by (cases r rule: page_items.cases) auto

lemma fetchPages_full:
  assumes "1000 \<le> length (page_items (server page))"
      and "length (page_items (server page)) \<le> limit"
  shows "fetchPages server limit c page acc reqs =
         fetchPages server limit c (page + 1) (acc @ page_items (server page))
           (reqs @ [DasRequest c page])"
proof -
  from assms(1) obtain items where "server page = Inr (Items items)" "1000 \<le> length items"
    using full_page_cases by blast
  with assms(2) show ?thesis
    by (subst fetchPages.simps) auto
qed

lemma fetchPages_last:
  assumes "length (page_items (server page)) < 1000"
      and "length (page_items (server page)) \<le> limit"
  shows "fetchPages server limit c page acc reqs =
         Some (reqs @ [DasRequest c page],
               case server page of Inl err \<Rightarrow> Inl err | Inr r \<Rightarrow> Inr (acc @ page_items (server page)))"
  using assms
  by (subst fetchPages.simps) (auto split: sum.splits das_result.splits)

lemma fetchPages_too_large:
  assumes "limit < length (page_items (server page))"
  shows "fetchPages server limit c page acc reqs =
         Some (reqs @ [DasRequest c page], Inl (SetupError ''Maximum call stack size exceeded''))"
proof -
  from assms obtain items where "server page = Inr (Items items)" "limit < length items"
    by (cases "server page" rule: page_items.cases) auto
  then show ?thesis
    by (subst fetchPages.simps) auto
qed

lemma fetchPages_run:
  assumes "\<forall>i<n. 1000 \<le> length (page_items (server (page + i)))
                \<and> length (page_items (server (page + i))) \<le> limit"
      and "length (page_items (server (page + n))) < 1000"
      and "length (page_items (server (page + n))) \<le> limit"
  shows "fetchPages server limit c page acc reqs =
         Some (reqs @ map (DasRequest c) [page..<page + n + 1],
               case server (page + n) of
                 Inl err \<Rightarrow> Inl err
               | Inr r \<Rightarrow> Inr (acc @ concat (map (\<lambda>i. page_items (server i)) [page..<page + n + 1])))"
  using assms
proof (induction n arbitrary: page acc reqs)
  case 0
  then show ?case by (simp add: fetchPages_last split: sum.splits)
next
  case (Suc n)
  have full: "1000 \<le> length (page_items (server page))"
    "length (page_items (server page)) \<le> limit"
    using Suc.prems(1) by force+
  have rest: "\<forall>i<n. 1000 \<le> length (page_items (server (page + 1 + i)))
                \<and> length (page_items (server (page + 1 + i))) \<le> limit"
    using Suc.prems(1) by force
  have last: "length (page_items (server (page + 1 + n))) < 1000"
    "length (page_items (server (page + 1 + n))) \<le> limit"
    using Suc.prems(2,3) by simp_all
  have upt: "[page..<page + Suc n + 1] = page # [page + 1..<page + 1 + n + 1]"
    by (simp add: upt_conv_Cons)
  show ?case
    unfolding fetchPages_full [of server page limit, OF full] Suc.IH [OF rest last] upt
    by (simp split: sum.splits)
qed

lemma fetchPages_stops:
  assumes "\<forall>i<n. 1000 \<le> length (page_items (server (page + i)))
                \<and> length (page_items (server (page + i))) \<le> limit"
      and "length (page_items (server (page + n))) < 1000
           \<or> limit < length (page_items (server (page + n)))"
  shows "\<exists>y. fetchPages server limit c page acc reqs = Some y"
  using assms
proof (induction n arbitrary: page acc reqs)
  case 0
  show ?case
  proof (cases "limit < length (page_items (server page))")
    case True
    then show ?thesis by (simp add: fetchPages_too_large)
  next
    case False
    with 0 have "length (page_items (server page)) < 1000"
      "length (page_items (server page)) \<le> limit"
      by simp_all
    then show ?thesis by (simp add: fetchPages_last)
  qed
next
  case (Suc n)
  have full: "1000 \<le> length (page_items (server page))"
    "length (page_items (server page)) \<le> limit"
    using Suc.prems(1) by force+
  have rest: "\<forall>i<n. 1000 \<le> length (page_items (server (page + 1 + i)))
                \<and> length (page_items (server (page + 1 + i))) \<le> limit"
    using Suc.prems(1) by force
  have last: "length (page_items (server (page + 1 + n))) < 1000
           \<or> limit < length (page_items (server (page + 1 + n)))"
    using Suc.prems(2) by simp
  show ?case
    unfolding fetchPages_full [of server page limit, OF full]
    by (rule Suc.IH [OF rest last])
qed

lemma fetchPages_returns_last_page:
  assumes "fetchPages server limit c page acc reqs = Some y"
  shows "\<exists>i. length (page_items (server (page + i))) < 1000
           \<or> limit < length (page_items (server (page + i)))"
proof (rule fetchPages.raw_induct
    [where P = "\<lambda>server limit c page acc reqs y.
        \<exists>i. length (page_items (server (page + i))) < 1000
           \<or> limit < length (page_items (server (page + i)))",
      OF _ assms], goal_cases)
  case (1 f server limit c page acc reqs y)
  show ?case
  proof (cases "length (page_items (server page)) < 1000
           \<or> limit < length (page_items (server page))")
    case True
    then have "length (page_items (server (page + 0))) < 1000
           \<or> limit < length (page_items (server (page + 0)))" by simp
    then show ?thesis by blast
  next
    case False
    then obtain items where it: "server page = Inr (Items items)" "1000 \<le> length items"
      "length items \<le> limit"
      using full_page_cases [of "server page"] by auto
    with 1(2) have "f server limit c (page + 1) (acc @ items) (reqs @ [DasRequest c page]) = Some y"
      by (auto split: if_splits)
    from 1(1) [OF this] obtain i where "length (page_items (server (page + 1 + i))) < 1000
           \<or> limit < length (page_items (server (page + 1 + i)))" by blast
    then have "length (page_items (server (page + Suc i))) < 1000
           \<or> limit < length (page_items (server (page + Suc i)))" by simp
    then show ?thesis by blast
  qed
qed

lemma fetchPages_requests:
  assumes "fetchPages server limit c page acc reqs = Some y"
  shows "\<exists>ps. fst y = reqs @ DasRequest c page # map (DasRequest c) ps"
proof (rule fetchPages.raw_induct
    [where P = "\<lambda>server limit c page acc reqs y.
        \<exists>ps. fst y = reqs @ DasRequest c page # map (DasRequest c) ps",
      OF _ assms], goal_cases)
  case (1 f server limit c page acc reqs y)
  show ?case
  proof (cases "fst y = reqs @ [DasRequest c page]")
    case True
    then have "fst y = reqs @ DasRequest c page # map (DasRequest c) []" by simp
    then show ?thesis by blast
  next
    case False
    with 1(2) obtain items
      where "f server limit c (page + 1) (acc @ items) (reqs @ [DasRequest c page]) = Some y"
      by (auto split: sum.splits das_result.splits if_splits)
    from 1(1) [OF this] obtain ps
      where "fst y = (reqs @ [DasRequest c page]) @ DasRequest c (page + 1) # map (DasRequest c) ps"
      by blast
    then have "fst y = reqs @ DasRequest c page # map (DasRequest c) ((page + 1) # ps)"
      by simp
    then show ?thesis by blast
  qed
qed

lemma upt_1_4: "[Suc 0..<4] = [1, 2, 3]"
  by (simp add: upt_conv_Cons eval_nat_numeral)

text \<open>
  Claim C3. On a service that honours the limit (a page holds at most 1000 items, so the
  pages before the first short one hold exactly 1000), and with an engine that takes 1000
  arguments in a call: the lookup starts at page 1 and stops at the first page \<open>n\<close> that has
  fewer than 1000 items, no items, no result, or fails. The pages requested are exactly
  \<open>1, \<dots>, n\<close>, in this order, so page \<open>N + 1\<close> is requested exactly when page \<open>N\<close> was and
  came back with exactly 1000 items; the addresses returned are the items of these pages,
  in page order.
\<close>

theorem pagination_requests:
  assumes "1 \<le> n"
      and "\<forall>i. 1 \<le> i \<and> i < n \<longrightarrow> length (page_items (getAssetsByGroup a c i)) = 1000"
      and "length (page_items (getAssetsByGroup a c n)) < 1000"
      and "1000 \<le> spreadLimit a"
  shows "getNftAddressesFromCollection a c =
           Some (map (DasRequest c) [1..<Suc n],
                 case getAssetsByGroup a c n of
                   Inl err \<Rightarrow> Inl (collection_error err)
                 | Inr r \<Rightarrow> Inr (concat (map (\<lambda>i. page_items (getAssetsByGroup a c i)) [1..<Suc n])))
       \<and> (\<forall>N. 1 \<le> N \<longrightarrow>
             (DasRequest c (Suc N) \<in> set (map (DasRequest c) [1..<Suc n]) \<longleftrightarrow>
                DasRequest c N \<in> set (map (DasRequest c) [1..<Suc n])
              \<and> length (page_items (getAssetsByGroup a c N)) = 1000))"
proof
  obtain m where n: "n = 1 + m"
    using assms(1) by (metis le_Suc_ex)
  have full: "\<forall>i<m. 1000 \<le> length (page_items (getAssetsByGroup a c (1 + i)))
                \<and> length (page_items (getAssetsByGroup a c (1 + i))) \<le> spreadLimit a"
    using assms(2,4) n by simp
  have last: "length (page_items (getAssetsByGroup a c (1 + m))) < 1000"
    "length (page_items (getAssetsByGroup a c (1 + m))) \<le> spreadLimit a"
    using assms(3,4) n by simp_all
  show "getNftAddressesFromCollection a c =
           Some (map (DasRequest c) [1..<Suc n],
                 case getAssetsByGroup a c n of
                   Inl err \<Rightarrow> Inl (collection_error err)
                 | Inr r \<Rightarrow> Inr (concat (map (\<lambda>i. page_items (getAssetsByGroup a c i)) [1..<Suc n])))"
    unfolding getNftAddressesFromCollection_def
      fetchPages_run [of m "getAssetsByGroup a c" 1 "spreadLimit a", OF full last]
    by (simp add: n split: sum.splits)
  show "\<forall>N. 1 \<le> N \<longrightarrow>
             (DasRequest c (Suc N) \<in> set (map (DasRequest c) [1..<Suc n]) \<longleftrightarrow>
                DasRequest c N \<in> set (map (DasRequest c) [1..<Suc n])
              \<and> length (page_items (getAssetsByGroup a c N)) = 1000)"
  proof (intro allI impI)
    fix N :: nat assume N: "1 \<le> N"
    have next_page: "DasRequest c (Suc N) \<in> set (map (DasRequest c) [1..<Suc n]) \<longleftrightarrow> N < n"
      by auto
    have this_page: "DasRequest c N \<in> set (map (DasRequest c) [1..<Suc n]) \<longleftrightarrow> N \<le> n"
      using N by auto
    show "DasRequest c (Suc N) \<in> set (map (DasRequest c) [1..<Suc n]) \<longleftrightarrow>
                DasRequest c N \<in> set (map (DasRequest c) [1..<Suc n])
              \<and> length (page_items (getAssetsByGroup a c N)) = 1000"
      unfolding next_page this_page
    proof
      assume "N < n"
      with N assms(2) show "N \<le> n \<and> length (page_items (getAssetsByGroup a c N)) = 1000"
        by simp
    next
      assume "N \<le> n \<and> length (page_items (getAssetsByGroup a c N)) = 1000"
      with assms(3) show "N < n" by (cases "N = n") auto
    qed
  qed
qed

text \<open>
  Claim C3, on the examples of the specification: pages of 1000, 1000 and 10 items give three
  requests and 2010 addresses; an empty first page gives one request.
\<close>

theorem pagination_requests_witness:
  "getNftAddressesFromCollection (service pages_1000_1000_10) ''COLL'' =
     Some ([DasRequest ''COLL'' 1, DasRequest ''COLL'' 2, DasRequest ''COLL'' 3],
           Inr (replicate 1000 ''nft'' @ replicate 1000 ''nft'' @ replicate 10 ''nft''))
   \<and> length (replicate 1000 ''nft'' @ replicate 1000 ''nft'' @ replicate 10 ''nft'') = 2010
   \<and> getNftAddressesFromCollection (service pages_empty) ''COLL'' =
        Some ([DasRequest ''COLL'' 1], Inr [])"
  using pagination_requests [of 3 "service pages_1000_1000_10" "''COLL''"]
    pagination_requests [of 1 "service pages_empty" "''COLL''"]
  by (simp add: service_def pages_1000_1000_10_def pages_empty_def upt_1_4)

text \<open>
  The hypotheses of the theorem cover every lookup that returns from a service honouring the
  limit: such a lookup has a first page with fewer than 1000 items, and the pages before it
  hold exactly 1000.
\<close>

lemma honoured_limit_first_short_page:
  assumes "\<forall>i. length (page_items (getAssetsByGroup a c i)) \<le> 1000"
      and "1000 \<le> spreadLimit a"
      and "getNftAddressesFromCollection a c = Some y"
  shows "\<exists>n. 1 \<le> n
           \<and> (\<forall>i. 1 \<le> i \<and> i < n \<longrightarrow> length (page_items (getAssetsByGroup a c i)) = 1000)
           \<and> length (page_items (getAssetsByGroup a c n)) < 1000"
proof -
  define short where "short i \<longleftrightarrow> length (page_items (getAssetsByGroup a c (1 + i))) < 1000" for i
  from assms(3) obtain y'
    where "fetchPages (getAssetsByGroup a c) (spreadLimit a) c 1 [] [] = Some y'"
    by (auto simp: getNftAddressesFromCollection_def split: option.splits)
  from fetchPages_returns_last_page [OF this] assms(1,2) have ex: "\<exists>i. short i"
    unfolding short_def by (metis le_trans not_less)
  define m where "m = (LEAST i. short i)"
  have last: "short m"
    unfolding m_def using ex by (rule LeastI_ex)
  have full: "length (page_items (getAssetsByGroup a c i)) = 1000" if "1 \<le> i" "i < 1 + m" for i
  proof -
    from that obtain k where k: "i = 1 + k" "k < m" by (metis add_less_cancel_left le_Suc_ex plus_1_eq_Suc)
    then have "\<not> short k" unfolding m_def by (auto dest: not_less_Least)
    with assms(1) k show ?thesis
      unfolding short_def by (metis le_antisym not_less)
  qed
  from last full show ?thesis
    unfolding short_def by (intro exI [of _ "1 + m"]) simp
qed

lemma created_append: "created (xs @ ys) = created xs @ created ys"
  by (induction xs rule: created.induct) auto

lemma created_requests: "created (map (DasRequest c) ps) = []"
  by (induction ps) auto

lemma created_mem: "CreateWebhook d \<in> set tr \<longleftrightarrow> d \<in> set (created tr)"
  by (induction tr rule: created.induct) auto

lemma getNft_requests:
  assumes "getNftAddressesFromCollection a c = Some (reqs, r)"
  shows "\<exists>ps. reqs = DasRequest c 1 # map (DasRequest c) ps"
proof -
  from assms obtain y
    where y: "fetchPages (getAssetsByGroup a c) (spreadLimit a) c 1 [] [] = Some y" "fst y = reqs"
    by (auto simp: getNftAddressesFromCollection_def split: option.splits sum.splits)
  from fetchPages_requests [OF y(1)] y(2) show ?thesis by simp
qed

section \<open>Sequencing\<close>

lemma then_io_cases:
  assumes "then_io m k = Some (tr, r)"
  shows "(\<exists>ev x ev'. m = Some (ev, Done x) \<and> k x = Some (ev', r) \<and> tr = ev @ ev')
       \<or> (m = Some (tr, Blocked) \<and> r = Blocked)
       \<or> (\<exists>code. m = Some (tr, Exited code) \<and> r = Exited code)"
proof (cases m)
  case None
  with assms show ?thesis by simp
next
  case (Some p)
  obtain ev r0 where p: "p = (ev, r0)" by (cases p)
  show ?thesis
    using assms Some p by (cases r0) (auto split: option.splits)
qed

lemma then_io_Done:
  "then_io m k = Some (tr, Done y) \<longleftrightarrow>
     (\<exists>ev x ev'. m = Some (ev, Done x) \<and> k x = Some (ev', Done y) \<and> tr = ev @ ev')"
proof
  assume "then_io m k = Some (tr, Done y)"
  from then_io_cases [OF this] show "\<exists>ev x ev'. m = Some (ev, Done x) \<and> k x = Some (ev', Done y) \<and> tr = ev @ ev'"
    by auto
next
  assume "\<exists>ev x ev'. m = Some (ev, Done x) \<and> k x = Some (ev', Done y) \<and> tr = ev @ ev'"
  then show "then_io m k = Some (tr, Done y)" by auto
qed

section \<open>The stages of the interactive prompt\<close>

lemma split_comma_nonempty: "split_comma s \<noteq> []"
  by (induction s) (auto split: list.splits)

lemma first_valid_Some:
  "first_valid validate entries = Some input \<Longrightarrow> input \<in> set entries \<and> validate input"
  by (induction entries) (auto split: if_splits)

lemma first_valid_None:
  "first_valid validate entries = None \<longleftrightarrow> (\<forall>input \<in> set entries. \<not> validate input)"
  by (induction entries) auto

lemma first_valid_Cons:
  "validate input \<Longrightarrow> first_valid validate (input # later) = Some input"
  by simp

lemma trim_nonempty: "trim input \<noteq> [] \<Longrightarrow> input \<noteq> []"
  by (auto simp: trim_def)

lemma promptForWebhookData_Done:
  "promptForWebhookData a usr prefilled = Some (tr, Done d) \<longleftrightarrow>
     (\<exists>ev1 basicAnswers ev2 uc ev3 acc ev4 addresses ev5 addresses'.
        basic_questions usr = (ev1, Done basicAnswers)
      \<and> collection_questions usr prefilled = (ev2, Done uc)
      \<and> process_collection a usr prefilled uc = Some (ev3, Done acc)
      \<and> address_question usr prefilled acc = (ev4, Done addresses)
      \<and> require_addresses usr addresses = (ev5, Done addresses')
      \<and> d = prompt_result basicAnswers addresses'
      \<and> tr = ConsoleLog (CHR 0x0A # ''Create a new webhook:'') # ev1 @ ev2 @ ev3 @ ev4 @ ev5)"
  unfolding promptForWebhookData_def then_io_Done
  by (simp add: ex_simps [symmetric] del: ex_simps) blast

lemma collection_questions_Done:
  assumes "collection_questions usr prefilled = (ev, Done (useCollection, c))"
  shows "useCollection \<longrightarrow> prefilled = [] \<and> u_useCollection usr \<and> c \<in> set (u_collectionAddress usr) \<and> trim c \<noteq> []"
  using assms first_valid_Some [of "\<lambda>input. trim input \<noteq> []" "u_collectionAddress usr"]
  by (auto simp: collection_questions_def split: if_splits option.splits)

lemma process_collection_Done:
  assumes "process_collection a usr prefilled (useCollection, c) = Some (ev, Done (addresses, added))"
  shows "(addresses = prefilled \<and> \<not> added)
       \<or> (useCollection \<and> u_confirmCollection usr \<and> added
          \<and> (\<exists>reqs nftAddresses. getNftAddressesFromCollection a c = Some (reqs, Inr nftAddresses)
                \<and> nftAddresses \<noteq> [] \<and> addresses = prefilled @ nftAddresses))"
  using assms
  by (auto simp: process_collection_def split: if_splits option.splits sum.splits)

lemma process_collection_declined:
  assumes "process_collection a usr prefilled uc = Some (ev, Done (addresses, added))"
      and "\<not> u_confirmCollection usr"
  shows "addresses = prefilled \<and> \<not> added"
  using assms
  by (cases uc) (auto simp: process_collection_def split: if_splits option.splits sum.splits)

lemma address_question_Done:
  assumes "address_question usr prefilled (acc, added) = (ev, Done addresses)"
  shows "\<exists>input. first_valid (address_validate (addressRequired prefilled added))
                   (u_accountAddresses usr) = Some input
               \<and> addresses = acc @ address_filter input"
  using assms
  by (auto simp: address_question_def split: option.splits if_splits)

lemma address_filter_nonempty:
  "trim input \<noteq> [] \<Longrightarrow> address_filter input = map trim (split_comma input)
     \<and> address_filter input \<noteq> []"
  by (auto simp: address_filter_def split_comma_nonempty dest: trim_nonempty)

lemma address_question_nonempty:
  assumes "address_question usr prefilled (acc, added) = (ev, Done addresses)"
      and "prefilled \<noteq> [] \<or> added \<longrightarrow> acc \<noteq> []"
  shows "addresses \<noteq> []"
proof -
  from address_question_Done [OF assms(1)] obtain input
    where fv: "first_valid (address_validate (addressRequired prefilled added))
                   (u_accountAddresses usr) = Some input"
      and addr: "addresses = acc @ address_filter input"
    by blast
  show ?thesis
  proof (cases "addressRequired prefilled added")
    case True
    with first_valid_Some [OF fv] have "trim input \<noteq> []"
      by (simp add: address_validate_def)
    from address_filter_nonempty [OF this] addr show ?thesis
      by (simp add: split_comma_nonempty)
  next
    case False
    with assms(2) addr show ?thesis
      by (auto simp: addressRequired_def)
  qed
qed

lemma require_addresses_Done:
  assumes "require_addresses usr addresses = (ev, Done addresses')"
  shows "addresses' \<noteq> [] \<and> (addresses \<noteq> [] \<longrightarrow> addresses' = addresses \<and> ev = [])"
  using assms
  by (auto simp: require_addresses_def split_comma_nonempty split: if_splits option.splits)

lemma prompt_addresses:
  assumes "promptForWebhookData a usr prefilled = Some (tr, Done d)"
  shows "\<exists>coll added input.
           accountAddresses d = prefilled @ coll @ address_filter input
         \<and> first_valid (address_validate (addressRequired prefilled added))
             (u_accountAddresses usr) = Some input
         \<and> (added \<longleftrightarrow> coll \<noteq> [])
         \<and> (coll \<noteq> [] \<longrightarrow> prefilled = [] \<and> u_useCollection usr \<and> u_confirmCollection usr
              \<and> (\<exists>c reqs. c \<in> set (u_collectionAddress usr)
                    \<and> getNftAddressesFromCollection a c = Some (reqs, Inr coll)))
         \<and> accountAddresses d \<noteq> []"
proof -
  from assms obtain ev1 basicAnswers ev2 uc ev3 acc ev4 addresses ev5 addresses'
    where bq: "basic_questions usr = (ev1, Done basicAnswers)"
      and cq: "collection_questions usr prefilled = (ev2, Done uc)"
      and pc: "process_collection a usr prefilled uc = Some (ev3, Done acc)"
      and aq: "address_question usr prefilled acc = (ev4, Done addresses)"
      and ra: "require_addresses usr addresses = (ev5, Done addresses')"
      and d: "d = prompt_result basicAnswers addresses'"
    unfolding promptForWebhookData_Done by blast
  obtain useCollection c where uc: "uc = (useCollection, c)" by (cases uc)
  obtain acc0 added where acc: "acc = (acc0, added)" by (cases acc)
  from process_collection_Done [OF pc [unfolded uc acc]]
  consider (skipped) "acc0 = prefilled" "\<not> added"
    | (added) reqs nftAddresses where "useCollection" "u_confirmCollection usr" "added"
        "getNftAddressesFromCollection a c = Some (reqs, Inr nftAddresses)"
        "nftAddresses \<noteq> []" "acc0 = prefilled @ nftAddresses"
    by blast
  then obtain coll where coll: "acc0 = prefilled @ coll" "added \<longleftrightarrow> coll \<noteq> []"
    "coll \<noteq> [] \<longrightarrow> useCollection \<and> u_confirmCollection usr
       \<and> (\<exists>reqs. getNftAddressesFromCollection a c = Some (reqs, Inr coll))"
  proof cases
    case skipped
    then show ?thesis using that [of "[]"] by simp
  next
    case added
    then show ?thesis using that [of nftAddresses] by simp
  qed
  have nonempty_acc: "prefilled \<noteq> [] \<or> added \<longrightarrow> acc0 \<noteq> []"
    using coll by auto
  from address_question_Done [OF aq [unfolded acc]] obtain input
    where fv: "first_valid (address_validate (addressRequired prefilled added))
                   (u_accountAddresses usr) = Some input"
      and addr: "addresses = acc0 @ address_filter input"
    by blast
  have "addresses \<noteq> []"
    using address_question_nonempty [OF aq [unfolded acc] nonempty_acc] .
  with require_addresses_Done [OF ra] have same: "addresses' = addresses" by simp
  have final: "accountAddresses d = prefilled @ coll @ address_filter input"
    using d same addr coll(1) by (simp add: prompt_result_def)
  have origin: "coll \<noteq> [] \<longrightarrow> prefilled = [] \<and> u_useCollection usr \<and> u_confirmCollection usr
              \<and> (\<exists>c reqs. c \<in> set (u_collectionAddress usr)
                    \<and> getNftAddressesFromCollection a c = Some (reqs, Inr coll))"
    using coll(3) collection_questions_Done [OF cq [unfolded uc]] by blast
  from final fv coll(2) origin \<open>addresses \<noteq> []\<close> addr coll(1) show ?thesis
    by (intro exI [of _ coll] exI [of _ added] exI [of _ input]) simp
qed

section \<open>Creation requests in a run\<close>

lemma ensureConfig_run:
  "\<exists>ev r. ensureConfig apiKey usr = (ev, r) \<and> created ev = []
          \<and> (r = Blocked \<or> r = Done True) \<and> (apiKey \<noteq> [] \<longrightarrow> ev = [] \<and> r = Done True)"
  by (simp add: ensureConfig_def split: option.splits)

lemma resolve_collection_run:
  assumes "resolve_collection a usr opts = Some (ev, r)"
  shows "created ev = [] \<and> (\<exists>addresses. r = Done addresses)
       \<and> (truthy (opt_collection opts) \<longrightarrow>
             (\<exists>rest. ev = SpinnerStart (''Fetching NFTs from collection ''
                              @ text_of (opt_collection opts) @ ''...'')
                          # DasRequest (text_of (opt_collection opts)) 1 # rest))"
proof (cases "truthy (opt_collection opts)")
  case False
  with assms show ?thesis by (auto simp: resolve_collection_def)
next
  case True
  with assms obtain reqs res
    where nft: "getNftAddressesFromCollection a (text_of (opt_collection opts)) = Some (reqs, res)"
    by (auto simp: resolve_collection_def split: option.splits)
  from getNft_requests [OF nft] obtain ps
    where reqs: "reqs = DasRequest (text_of (opt_collection opts)) 1
                   # map (DasRequest (text_of (opt_collection opts))) ps"
    by blast
  have "created reqs = []"
    unfolding reqs using created_requests [of "text_of (opt_collection opts)" "1 # ps"] by simp
  with assms True nft reqs show ?thesis
    by (auto simp: resolve_collection_def created_append split: sum.splits if_splits)
qed

lemma resolve_collection_Done:
  assumes "resolve_collection a usr opts = Some (ev, Done addresses)"
  shows "addresses = []
       \<or> (truthy (opt_collection opts) \<and> u_confirmOption usr
          \<and> (\<exists>reqs. getNftAddressesFromCollection a (text_of (opt_collection opts))
                       = Some (reqs, Inr addresses)))"
  using assms
  by (auto simp: resolve_collection_def split: if_splits option.splits sum.splits)

lemma process_collection_created:
  assumes "process_collection a usr prefilled uc = Some (ev, r)"
  shows "created ev = [] \<and> (\<exists>acc. r = Done acc)"
proof -
  obtain useCollection c where uc: "uc = (useCollection, c)" by (cases uc)
  show ?thesis
  proof (cases "useCollection \<and> c \<noteq> []")
    case False
    with assms uc show ?thesis by (auto simp: process_collection_def)
  next
    case True
    with assms uc obtain reqs res
      where nft: "getNftAddressesFromCollection a c = Some (reqs, res)"
      by (auto simp: process_collection_def split: option.splits)
    from getNft_requests [OF nft] obtain ps
      where reqs: "reqs = DasRequest c 1 # map (DasRequest c) ps"
      by blast
    have "created reqs = []"
      unfolding reqs using created_requests [of c "1 # ps"] by simp
    with assms True nft uc show ?thesis
      by (auto simp: process_collection_def created_append split: sum.splits if_splits)
  qed
qed

lemma basic_questions_created:
  "basic_questions usr = (ev, r) \<Longrightarrow> created ev = [] \<and> (\<forall>code. r \<noteq> Exited code)"
  by (auto simp: basic_questions_def Q_webhookURL_def Q_webhookType_def Q_authHeader_def
      Q_txnStatus_def Q_transactionTypes_def split: option.splits)

lemma collection_questions_created:
  "collection_questions usr prefilled = (ev, r) \<Longrightarrow> created ev = [] \<and> (\<forall>code. r \<noteq> Exited code)"
  by (auto simp: collection_questions_def split: option.splits if_splits)

lemma address_question_created:
  "address_question usr prefilled acc = (ev, r) \<Longrightarrow> created ev = [] \<and> (\<forall>code. r \<noteq> Exited code)"
  by (cases acc) (auto simp: address_question_def split: option.splits if_splits)

lemma require_addresses_created:
  "require_addresses usr addresses = (ev, r) \<Longrightarrow> created ev = [] \<and> (\<forall>code. r \<noteq> Exited code)"
  by (auto simp: require_addresses_def split: option.splits if_splits)

lemma then_io_quiet:
  assumes "then_io m k = Some (tr, r)"
      and "\<And>ev r0. m = Some (ev, r0) \<Longrightarrow> created ev = [] \<and> (\<forall>code. r0 \<noteq> Exited code)"
      and "\<And>x ev r'. k x = Some (ev, r') \<Longrightarrow> created ev = [] \<and> (\<forall>code. r' \<noteq> Exited code)"
  shows "created tr = [] \<and> (\<forall>code. r \<noteq> Exited code)"
proof -
  from then_io_cases [OF assms(1)]
  consider (run) ev x ev' where "m = Some (ev, Done x)" "k x = Some (ev', r)" "tr = ev @ ev'"
    | (blocked) "m = Some (tr, Blocked)" "r = Blocked"
    | (exited) code where "m = Some (tr, Exited code)" "r = Exited code"
    by blast
  then show ?thesis
  proof cases
    case run
    from assms(2) [OF run(1)] assms(3) [OF run(2)] run(3) show ?thesis
      by (simp add: created_append)
  next
    case blocked
    from assms(2) [OF blocked(1)] blocked(2) show ?thesis by simp
  next
    case exited
    from assms(2) [OF exited(1)] show ?thesis by simp
  qed
qed

lemma promptForWebhookData_quiet:
  assumes "promptForWebhookData a usr prefilled = Some (tr, r)"
  shows "created tr = [] \<and> (\<forall>code. r \<noteq> Exited code)"
  using assms unfolding promptForWebhookData_def
  apply (elim then_io_quiet)
            apply simp
           apply (auto dest: basic_questions_created) [1]
          apply (auto dest: collection_questions_created) [1]
         apply (auto dest: process_collection_created) [1]
        apply (auto dest: address_question_created) [1]
       apply (auto dest: require_addresses_created) [1]
  apply simp
  done

lemma find_Some_invalid: "find P xs = Some x \<Longrightarrow> x \<in> set xs \<and> P x"
  by (induction xs) (auto split: if_splits)

lemma command_line_data_Done:
  "command_line_data opts addresses = Some (ev, Done d) \<longleftrightarrow>
     truthy (opt_url opts) \<and> truthy (opt_type opts) \<and> truthy (opt_types opts)
   \<and> (\<forall>t \<in> set (parse_types (text_of (opt_types opts))). t \<in> set TRANSACTION_TYPES)
   \<and> (addresses \<noteq> [] \<or> truthy (opt_addresses opts))
   \<and> text_of (opt_type opts) \<in> set WEBHOOK_TYPES
   \<and> (truthy (opt_status opts) \<longrightarrow> text_of (opt_status opts) \<in> set TXN_STATUS_OPTIONS)
   \<and> d = \<lparr>webhookURL = text_of (opt_url opts), webhookType = text_of (opt_type opts),
           transactionTypes = parse_types (text_of (opt_types opts)),
           accountAddresses = addresses @ (if truthy (opt_addresses opts)
              then parse_addresses (text_of (opt_addresses opts)) else []),
           authHeader = opt_authHeader opts,
           txnStatus = (if truthy (opt_status opts) then opt_status opts else None)\<rparr>
   \<and> ev = (if addresses \<noteq> [] \<and> truthy (opt_addresses opts)
           then [ConsoleLog (''Added ''
                   @ show_nat (length (parse_addresses (text_of (opt_addresses opts))))
                   @ '' additional addresses from command line.'')]
           else [])"
  unfolding command_line_data_def then_io_Done
  by (auto simp: require_options_def validate_types_def command_line_addresses_def
      validate_type_status_def find_None_iff split: if_splits option.splits dest: find_Some_invalid)

lemma command_line_data_DoneD:
  assumes "command_line_data opts addresses = Some (ev, Done d)"
  shows "truthy (opt_url opts)" "truthy (opt_type opts)" "truthy (opt_types opts)"
    "\<forall>t \<in> set (parse_types (text_of (opt_types opts))). t \<in> set TRANSACTION_TYPES"
    "addresses \<noteq> [] \<or> truthy (opt_addresses opts)"
    "text_of (opt_type opts) \<in> set WEBHOOK_TYPES"
    "truthy (opt_status opts) \<longrightarrow> text_of (opt_status opts) \<in> set TXN_STATUS_OPTIONS"
    "transactionTypes d = parse_types (text_of (opt_types opts))"
    "accountAddresses d = addresses @ (if truthy (opt_addresses opts)
              then parse_addresses (text_of (opt_addresses opts)) else [])"
    "txnStatus d = (if truthy (opt_status opts) then opt_status opts else None)"
  using assms unfolding command_line_data_Done by simp_all

lemma command_line_data_quiet:
  assumes "command_line_data opts addresses = Some (ev, r)"
  shows "created ev = [] \<and> r \<noteq> Blocked \<and> (\<forall>code. r = Exited code \<longrightarrow> code = 1)"
proof -
  have q1: "created (fst (require_options opts)) = []"
    "snd (require_options opts) = Done () \<or> snd (require_options opts) = Exited 1"
    by (auto simp: require_options_def)
  have q2: "created (fst (validate_types opts)) = []"
    "(\<exists>ts. snd (validate_types opts) = Done ts) \<or> snd (validate_types opts) = Exited 1"
    by (auto simp: validate_types_def split: option.splits)
  have q3: "created (fst (command_line_addresses opts addresses)) = []"
    "(\<exists>ts. snd (command_line_addresses opts addresses) = Done ts)
       \<or> snd (command_line_addresses opts addresses) = Exited 1"
    by (auto simp: command_line_addresses_def)
  have q4: "created (fst (validate_type_status opts)) = []"
    "snd (validate_type_status opts) = Done () \<or> snd (validate_type_status opts) = Exited 1"
    by (auto simp: validate_type_status_def)
  obtain e1 r1 where s1: "require_options opts = (e1, r1)" by (cases "require_options opts")
  obtain e2 r2 where s2: "validate_types opts = (e2, r2)" by (cases "validate_types opts")
  obtain e3 r3 where s3: "command_line_addresses opts addresses = (e3, r3)"
    by (cases "command_line_addresses opts addresses")
  obtain e4 r4 where s4: "validate_type_status opts = (e4, r4)"
    by (cases "validate_type_status opts")
  show ?thesis
    using assms q1 q2 q3 q4 unfolding command_line_data_def s1 s2 s3 s4
    by (auto simp: created_append)
qed

lemma submit_created: "created (fst (submit a d)) = [d]"
  by (simp add: submit_def split: sum.splits)

lemma create_action_run:
  assumes "create_action apiKey a usr opts = Some (tr, out)"
  shows "(\<exists>ev0. ensureConfig apiKey usr = (ev0, Blocked) \<and> tr = ev0 \<and> out = Blocked)
       \<or> (\<exists>ev0 ev1 addresses ev2 r2.
             ensureConfig apiKey usr = (ev0, Done True)
           \<and> resolve_collection a usr opts = Some (ev1, Done addresses)
           \<and> (if opt_interactive opts then promptForWebhookData a usr addresses
               else command_line_data opts addresses) = Some (ev2, r2)
           \<and> created (ev0 @ ev1 @ ev2) = []
           \<and> ((\<exists>d. r2 = Done d \<and> tr = ev0 @ ev1 @ ev2 @ fst (submit a d)
                    \<and> out = snd (submit a d))
              \<or> (r2 = Blocked \<and> opt_interactive opts \<and> tr = ev0 @ ev1 @ ev2 \<and> out = Blocked)
              \<or> (r2 = Exited 1 \<and> \<not> opt_interactive opts \<and> tr = ev0 @ ev1 @ ev2
                    \<and> out = Exited 1)))"
proof -
  obtain ev0 r0 where cfg: "ensureConfig apiKey usr = (ev0, r0)" "created ev0 = []"
    "r0 = Blocked \<or> r0 = Done True"
    using ensureConfig_run [of apiKey usr] by blast
  show ?thesis
  proof (cases "r0 = Blocked")
    case True
    with assms cfg show ?thesis by (simp add: create_action_def)
  next
    case False
    with cfg have r0: "r0 = Done True" by simp
    define rest where "rest =
      then_io (resolve_collection a usr opts) (\<lambda>addresses.
        then_io (if opt_interactive opts then promptForWebhookData a usr addresses
                 else command_line_data opts addresses) (\<lambda>webhookData.
          Some (submit a webhookData)))"
    from assms cfg r0 obtain tr1 where rest: "rest = Some (tr1, out)" and tr: "tr = ev0 @ tr1"
      by (auto simp: create_action_def rest_def split: option.splits)
    from then_io_cases [OF rest [unfolded rest_def]] resolve_collection_run [of a usr opts]
    obtain ev1 addresses tr2
      where rc: "resolve_collection a usr opts = Some (ev1, Done addresses)"
        and data: "then_io (if opt_interactive opts then promptForWebhookData a usr addresses
                 else command_line_data opts addresses) (\<lambda>webhookData.
          Some (submit a webhookData)) = Some (tr2, out)"
        and tr1: "tr1 = ev1 @ tr2"
      by (elim disjE exE conjE) auto
    have q1: "created ev1 = []"
      using resolve_collection_run [OF rc] by simp
    let ?data = "if opt_interactive opts then promptForWebhookData a usr addresses
                 else command_line_data opts addresses"
    from then_io_cases [OF data]
    consider (run) ev2 d ev3 where "?data = Some (ev2, Done d)"
        "Some (submit a d) = Some (ev3, out)" "tr2 = ev2 @ ev3"
      | (blocked) "?data = Some (tr2, Blocked)" "out = Blocked"
      | (exited) code where "?data = Some (tr2, Exited code)" "out = Exited code"
      by blast
    then show ?thesis
    proof cases
      case run
      have "created ev2 = []"
        using run(1) promptForWebhookData_quiet [of a usr addresses ev2 "Done d"]
          command_line_data_quiet [of opts addresses ev2 "Done d"]
        by (auto split: if_splits)
      moreover have "ev3 = fst (submit a d)" "out = snd (submit a d)"
        using run(2) by (cases "submit a d"; simp)+
      ultimately show ?thesis
        using cfg r0 rc run tr tr1 q1 by (auto simp: created_append)
    next
      case blocked
      have "created tr2 = [] \<and> opt_interactive opts"
        using blocked(1) promptForWebhookData_quiet [of a usr addresses tr2 Blocked]
          command_line_data_quiet [of opts addresses tr2 Blocked]
        by (auto split: if_splits)
      then show ?thesis
        using cfg r0 rc blocked tr tr1 q1 by (auto simp: created_append)
    next
      case exited
      have "created tr2 = [] \<and> \<not> opt_interactive opts \<and> code = 1"
        using exited(1) promptForWebhookData_quiet [of a usr addresses tr2 "Exited code"]
          command_line_data_quiet [of opts addresses tr2 "Exited code"]
        by (auto split: if_splits)
      then show ?thesis
        using cfg r0 rc exited tr tr1 q1 by (auto simp: created_append)
    qed
  qed
qed

lemma create_action_created:
  assumes "create_action apiKey a usr opts = Some (tr, out)"
  shows "(created tr = [] \<and> out \<noteq> Done ())
       \<or> (\<exists>ev1 addresses ev2 d.
             resolve_collection a usr opts = Some (ev1, Done addresses)
           \<and> (if opt_interactive opts then promptForWebhookData a usr addresses
               else command_line_data opts addresses) = Some (ev2, Done d)
           \<and> created tr = [d] \<and> out = snd (submit a d))"
proof -
  from create_action_run [OF assms]
  consider (config) ev0 where "ensureConfig apiKey usr = (ev0, Blocked)" "tr = ev0" "out = Blocked"
    | (run) ev0 ev1 addresses ev2 r2 where
        "resolve_collection a usr opts = Some (ev1, Done addresses)"
        "(if opt_interactive opts then promptForWebhookData a usr addresses
          else command_line_data opts addresses) = Some (ev2, r2)"
        "created (ev0 @ ev1 @ ev2) = []"
        "(\<exists>d. r2 = Done d \<and> tr = ev0 @ ev1 @ ev2 @ fst (submit a d) \<and> out = snd (submit a d))
         \<or> (r2 = Blocked \<and> tr = ev0 @ ev1 @ ev2 \<and> out = Blocked)
         \<or> (r2 = Exited 1 \<and> tr = ev0 @ ev1 @ ev2 \<and> out = Exited 1)"
    by blast
  then show ?thesis
  proof cases
    case config
    with ensureConfig_run [of apiKey usr] show ?thesis by auto
  next
    case run
    from run(4) show ?thesis
    proof (elim disjE exE conjE)
      fix d
      assume r2: "r2 = Done d" and tr: "tr = ev0 @ ev1 @ ev2 @ fst (submit a d)"
        and out: "out = snd (submit a d)"
      have "created tr = [d]"
        unfolding tr using run(3) created_append [of "ev0 @ ev1 @ ev2" "fst (submit a d)"]
        by (simp add: submit_created)
      with run(1,2) r2 out show ?thesis by blast
    next
      assume "tr = ev0 @ ev1 @ ev2" "out = Blocked"
      with run(3) show ?thesis by simp
    next
      assume "tr = ev0 @ ev1 @ ev2" "out = Exited 1"
      with run(3) show ?thesis by simp
    qed
  qed
qed

section \<open>Runs that return\<close>

text \<open>
  The only loop of the program is the pagination. The collection lookup returns exactly when
  some page comes back with fewer than 1000 items (or empty, without result, or as a failure)
  or is too large to be pushed;
  on a service whose lookups return, the creation command and the interactive prompt return
  (possibly blocked at a question), and the deletion command always does.
\<close>

lemma getNft_returns_iff:
  "(\<exists>y. getNftAddressesFromCollection a c = Some y) \<longleftrightarrow>
     (\<exists>n. length (page_items (getAssetsByGroup a c (Suc n))) < 1000
        \<or> spreadLimit a < length (page_items (getAssetsByGroup a c (Suc n))))"
proof
  assume "\<exists>y. getNftAddressesFromCollection a c = Some y"
  then obtain y
    where "fetchPages (getAssetsByGroup a c) (spreadLimit a) c 1 [] [] = Some y"
    by (auto simp: getNftAddressesFromCollection_def split: option.splits)
  from fetchPages_returns_last_page [OF this]
  show "\<exists>n. length (page_items (getAssetsByGroup a c (Suc n))) < 1000
        \<or> spreadLimit a < length (page_items (getAssetsByGroup a c (Suc n)))" by simp
next
  define stops where "stops n \<longleftrightarrow> length (page_items (getAssetsByGroup a c (1 + n))) < 1000
        \<or> spreadLimit a < length (page_items (getAssetsByGroup a c (1 + n)))" for n
  assume "\<exists>n. length (page_items (getAssetsByGroup a c (Suc n))) < 1000
        \<or> spreadLimit a < length (page_items (getAssetsByGroup a c (Suc n)))"
  then have ex: "\<exists>n. stops n" by (simp add: stops_def)
  define n where "n = (LEAST n. stops n)"
  have last: "stops n"
    unfolding n_def using ex by (rule LeastI_ex)
  have full: "\<forall>i<n. 1000 \<le> length (page_items (getAssetsByGroup a c (1 + i)))
                \<and> length (page_items (getAssetsByGroup a c (1 + i))) \<le> spreadLimit a"
  proof (intro allI impI)
    fix i assume "i < n"
    then have "\<not> stops i"
      unfolding n_def by (rule not_less_Least)
    then show "1000 \<le> length (page_items (getAssetsByGroup a c (1 + i)))
                \<and> length (page_items (getAssetsByGroup a c (1 + i))) \<le> spreadLimit a"
      by (simp add: stops_def)
  qed
  from fetchPages_stops [OF full last [unfolded stops_def], of c "[]" "[]"]
  show "\<exists>y. getNftAddressesFromCollection a c = Some y"
    by (auto simp: getNftAddressesFromCollection_def split: sum.splits)
qed

lemma then_io_returns:
  assumes "\<exists>y. m = Some y" and "\<And>x. \<exists>y. k x = Some y"
  shows "\<exists>y. then_io m k = Some y"
proof -
  from assms(1) obtain ev r where m: "m = Some (ev, r)" by auto
  show ?thesis
  proof (cases r)
    case (Done x)
    from assms(2) [of x] obtain ev' r' where "k x = Some (ev', r')" by auto
    with m Done show ?thesis by simp
  qed (simp_all add: m)
qed

lemma process_collection_returns:
  assumes "\<And>c. \<exists>y. getNftAddressesFromCollection a c = Some y"
  shows "\<exists>y. process_collection a usr prefilled uc = Some y"
proof -
  obtain useCollection c where uc: "uc = (useCollection, c)" by (cases uc)
  from assms [of c] obtain reqs res where "getNftAddressesFromCollection a c = Some (reqs, res)"
    by auto
  then show ?thesis
    by (cases res) (simp_all add: uc process_collection_def)
qed

lemma resolve_collection_returns:
  assumes "\<And>c. \<exists>y. getNftAddressesFromCollection a c = Some y"
  shows "\<exists>y. resolve_collection a usr opts = Some y"
proof -
  from assms [of "text_of (opt_collection opts)"] obtain reqs res
    where "getNftAddressesFromCollection a (text_of (opt_collection opts)) = Some (reqs, res)"
    by auto
  then show ?thesis
    by (cases res) (simp_all add: resolve_collection_def)
qed

lemma promptForWebhookData_returns:
  assumes "\<And>c. \<exists>y. getNftAddressesFromCollection a c = Some y"
  shows "\<exists>y. promptForWebhookData a usr prefilled = Some y"
  unfolding promptForWebhookData_def
  by (intro then_io_returns process_collection_returns assms) simp_all

lemma command_line_data_returns: "\<exists>y. command_line_data opts addresses = Some y"
  unfolding command_line_data_def
  by (intro then_io_returns) simp_all

lemma create_action_returns:
  assumes "\<And>c. \<exists>y. getNftAddressesFromCollection a c = Some y"
  shows "\<exists>y. create_action apiKey a usr opts = Some y"
proof -
  have data: "\<exists>y. (if opt_interactive opts then promptForWebhookData a usr addresses
                    else command_line_data opts addresses) = Some y" for addresses
    using promptForWebhookData_returns [OF assms, of usr addresses]
      command_line_data_returns [of opts addresses]
    by (cases "opt_interactive opts") simp_all
  show ?thesis
    unfolding create_action_def
    by (intro then_io_returns resolve_collection_returns assms data) simp_all
qed

lemma delete_action_returns: "\<exists>y. delete_action apiKey a usr ident force = Some y"
  unfolding delete_action_def
  by (intro then_io_returns) simp_all

section \<open>Runs on the scenarios\<close>

text \<open>The definitions unfolded when a run on a concrete scenario is computed.\<close>

lemmas run_defs =
  create_action_def ensureConfig_def resolve_collection_def getNftAddressesFromCollection_def
  fetchPages.simps promptForWebhookData_def basic_questions_def collection_questions_def
  process_collection_def address_question_def require_addresses_def addressRequired_def
  address_validate_def address_filter_def addressPromptMessage_def prompt_result_def
  txnStatus_special_case_def command_line_data_def require_options_def validate_types_def
  parse_types_def command_line_addresses_def parse_addresses_def validate_type_status_def
  submit_def list_prompt_def checkbox_prompt_def trim_def isWhiteSpace_def toUpperCase_def
  toUpperChar_def show_nat.simps TRANSACTION_TYPES_def WEBHOOK_TYPES_def TXN_STATUS_OPTIONS_def
  SKIP_STATUS_def Q_webhookURL_def Q_webhookType_def Q_authHeader_def Q_txnStatus_def
  Q_transactionTypes_def service_def echo_def alice_def cli_def pages_empty_def pages_B_C_def
  Let_def

section \<open>The status filter of the interactive draft\<close>

text \<open>
  Claim C1 says that the skip choice of the status question gives a draft without status
  filter. The source computes \<^verbatim>\<open>undefined\<close> for that choice into the local
  \<^verbatim>\<open>txnStatus\<close>, but returns \<^verbatim>\<open>basicAnswers.txnStatus\<close>: in this run the draft sent to
  \<^verbatim>\<open>createWebhook\<close> carries the text of the skip choice as its status.
\<close>

theorem skip_choice_is_submitted:
  "create_action ''KEY'' (service pages_empty)
     (alice\<lparr>u_txnStatus := ''Skip (don't filter by status)'', u_useCollection := False\<rparr>)
     (cli\<lparr>opt_interactive := True\<rparr>) =
   Some ([ConsoleLog (CHR 0x0A # ''Create a new webhook:''),
          Prompt ''webhookURL'' ''Enter the webhook URL:'',
          Prompt ''webhookType'' ''Select the webhook type:'',
          Prompt ''authHeader'' ''Enter an authorization header (optional):'',
          Prompt ''txnStatus'' ''Select transaction status to monitor:'',
          Prompt ''transactionTypes'' ''Select transaction types to monitor:'',
          Prompt ''useCollection'' ''Do you want to track NFTs from a collection?'',
          Prompt ''accountAddresses'' ''Enter account addresses to monitor (comma-separated):'',
          ConsoleLog ''Added 2 additional addresses from input.'',
          SpinnerStart ''Creating webhook...'',
          CreateWebhook
            \<lparr>webhookURL = ''https://example.com/hook'', webhookType = ''enhanced'',
             transactionTypes = [''NFT_SALE''], accountAddresses = [''D'', ''E''],
             authHeader = None, txnStatus = Some ''Skip (don't filter by status)''\<rparr>,
          SpinnerSucceed ''Webhook created successfully'',
          ShowWebhook
            \<lparr>webhookURL = ''https://example.com/hook'', webhookType = ''enhanced'',
             transactionTypes = [''NFT_SALE''], accountAddresses = [''D'', ''E''],
             authHeader = None, txnStatus = Some ''Skip (don't filter by status)'',
             webhookID = ''wh-1'', encoding = None, encoding_config = None\<rparr>],
         Done ())"
  by (simp add: run_defs)

text \<open>
  In general the draft of the interactive mode carries the choice made at the status question
  as it is: one of \<open>all\<close>, \<open>success\<close>, \<open>failed\<close>, or the text of the skip choice.
\<close>

lemma prompt_txnStatus:
  assumes "promptForWebhookData a usr prefilled = Some (tr, Done d)"
  shows "txnStatus d = Some (u_txnStatus usr)
       \<and> u_txnStatus usr \<in> set (TXN_STATUS_OPTIONS @ [SKIP_STATUS])"
proof -
  from assms obtain ev1 basicAnswers addresses'
    where bq: "basic_questions usr = (ev1, Done basicAnswers)"
      and d: "d = prompt_result basicAnswers addresses'"
    unfolding promptForWebhookData_Done by blast
  from bq have "a_txnStatus basicAnswers = u_txnStatus usr
      \<and> u_txnStatus usr \<in> set (TXN_STATUS_OPTIONS @ [SKIP_STATUS])"
    by (auto simp: basic_questions_def list_prompt_def split: option.splits if_splits)
  with d show ?thesis by (simp add: prompt_result_def)
qed

section \<open>Order of collection resolution and validation\<close>

text \<open>
  Claim C2 as stated (presence of URL, type and types is validated before the collection is
  resolved) fails: with \<^verbatim>\<open>--collection COLL\<close> and no \<^verbatim>\<open>--url\<close>, the collection is requested
  from the service and the user is asked to confirm before the missing URL is reported.
\<close>

theorem validation_first_counterexample:
  "create_action ''KEY'' (service pages_B_C) alice
     (cli\<lparr>opt_url := None, opt_collection := Some ''COLL''\<rparr>) =
   Some ([SpinnerStart ''Fetching NFTs from collection COLL...'',
          DasRequest ''COLL'' 1,
          SpinnerSucceed ''Found 2 NFTs in collection COLL'',
          Prompt ''confirm''
            ''Do you want to add 2 NFT addresses from this collection to your webhook?'',
          ConsoleLog ''Added 2 NFT addresses to the webhook.'',
          ConsoleError ''Error: Webhook URL is required for non-interactive mode'',
          ConsoleLog ''Use --url option or --interactive mode''],
         Exited 1)"
  by (simp add: run_defs)

lemma resolve_collection_no_error:
  assumes "resolve_collection a usr opts = Some (ev, r)"
  shows "ConsoleError m \<notin> set ev"
proof (cases "truthy (opt_collection opts)")
  case False
  with assms show ?thesis by (auto simp: resolve_collection_def)
next
  case True
  with assms obtain reqs res
    where nft: "getNftAddressesFromCollection a (text_of (opt_collection opts)) = Some (reqs, res)"
    by (auto simp: resolve_collection_def split: option.splits)
  from getNft_requests [OF nft] have "ConsoleError m \<notin> set reqs" by auto
  with assms True nft show ?thesis
    by (auto simp: resolve_collection_def split: sum.splits if_splits)
qed

lemma command_line_data_missing:
  assumes "\<not> (truthy (opt_url opts) \<and> truthy (opt_type opts) \<and> truthy (opt_types opts))"
  shows "command_line_data opts addresses = Some (fst (require_options opts), Exited 1)
       \<and> (\<exists>m l. fst (require_options opts) = [ConsoleError m, ConsoleLog l])"
  using assms by (auto simp: command_line_data_def require_options_def)

text \<open>
  Claim C2, as the code has it. In command line mode with a collection address (and an API
  key configured), the run starts with the resolution of the collection: the spinner, then the
  request for page 1. Nothing is reported as an error during the resolution; whatever the
  validations report (presence of URL, type and types, then the transaction types, then the
  address list, then type and status) comes after it. When one of URL, type and types is
  absent, the rest of the run is exactly the report of the first absent one and the exit with
  status 1.
\<close>

theorem collection_resolved_before_validation:
  assumes "create_action apiKey a usr opts = Some (tr, out)"
      and "apiKey \<noteq> []"
      and "\<not> opt_interactive opts"
      and "truthy (opt_collection opts)"
  shows "\<exists>ev1 addresses ev2 rest.
           resolve_collection a usr opts = Some (ev1, Done addresses)
         \<and> ev1 = SpinnerStart (''Fetching NFTs from collection ''
                    @ text_of (opt_collection opts) @ ''...'')
                 # DasRequest (text_of (opt_collection opts)) 1 # rest
         \<and> (\<forall>m. ConsoleError m \<notin> set ev1)
         \<and> tr = ev1 @ ev2
         \<and> (\<not> (truthy (opt_url opts) \<and> truthy (opt_type opts) \<and> truthy (opt_types opts))
              \<longrightarrow> ev2 = fst (require_options opts) \<and> out = Exited 1
                  \<and> (\<exists>m l. ev2 = [ConsoleError m, ConsoleLog l]))"
proof -
  have cfg: "ensureConfig apiKey usr = ([], Done True)"
    using assms(2) by (simp add: ensureConfig_def)
  from create_action_run [OF assms(1)] cfg assms(3)
  obtain ev1 addresses ev2 r2
    where rc: "resolve_collection a usr opts = Some (ev1, Done addresses)"
      and data: "command_line_data opts addresses = Some (ev2, r2)"
      and tr: "(\<exists>d. r2 = Done d \<and> tr = ev1 @ ev2 @ fst (submit a d) \<and> out = snd (submit a d))
             \<or> (r2 = Exited 1 \<and> tr = ev1 @ ev2 \<and> out = Exited 1)"
    by auto
  from resolve_collection_run [OF rc] assms(4) obtain rest
    where shape: "ev1 = SpinnerStart (''Fetching NFTs from collection ''
                    @ text_of (opt_collection opts) @ ''...'')
                 # DasRequest (text_of (opt_collection opts)) 1 # rest"
    by blast
  have quiet: "\<forall>m. ConsoleError m \<notin> set ev1"
    using resolve_collection_no_error [OF rc] by blast
  show ?thesis
  proof (cases "truthy (opt_url opts) \<and> truthy (opt_type opts) \<and> truthy (opt_types opts)")
    case True
    from tr obtain ev2' where "tr = ev1 @ ev2'" by auto
    with rc shape quiet True show ?thesis by blast
  next
    case False
    from command_line_data_missing [OF False, of addresses] data
    have "ev2 = fst (require_options opts)" "r2 = Exited 1"
      "\<exists>m l. ev2 = [ConsoleError m, ConsoleLog l]"
      by auto
    with tr have "tr = ev1 @ ev2" "out = Exited 1" by auto
    with rc shape quiet \<open>ev2 = fst (require_options opts)\<close> \<open>\<exists>m l. ev2 = [ConsoleError m, ConsoleLog l]\<close>
    show ?thesis by blast
  qed
qed

text \<open>Claim C2 on the run with \<^verbatim>\<open>--collection COLL\<close> and no \<^verbatim>\<open>--url\<close>.\<close>

theorem collection_resolved_before_validation_witness:
  "\<exists>ev1 addresses ev2 rest.
     resolve_collection (service pages_B_C) alice
       (cli\<lparr>opt_url := None, opt_collection := Some ''COLL''\<rparr>) = Some (ev1, Done addresses)
   \<and> ev1 = SpinnerStart ''Fetching NFTs from collection COLL...'' # DasRequest ''COLL'' 1 # rest
   \<and> (\<forall>m. ConsoleError m \<notin> set ev1)
   \<and> [SpinnerStart ''Fetching NFTs from collection COLL...'',
       DasRequest ''COLL'' 1,
       SpinnerSucceed ''Found 2 NFTs in collection COLL'',
       Prompt ''confirm''
         ''Do you want to add 2 NFT addresses from this collection to your webhook?'',
       ConsoleLog ''Added 2 NFT addresses to the webhook.'',
       ConsoleError ''Error: Webhook URL is required for non-interactive mode'',
       ConsoleLog ''Use --url option or --interactive mode''] = ev1 @ ev2
   \<and> ev2 = [ConsoleError ''Error: Webhook URL is required for non-interactive mode'',
            ConsoleLog ''Use --url option or --interactive mode'']"
proof -
  have run: "create_action ''KEY'' (service pages_B_C) alice
     (cli\<lparr>opt_url := None, opt_collection := Some ''COLL''\<rparr>) =
   Some ([SpinnerStart ''Fetching NFTs from collection COLL...'',
          DasRequest ''COLL'' 1,
          SpinnerSucceed ''Found 2 NFTs in collection COLL'',
          Prompt ''confirm''
            ''Do you want to add 2 NFT addresses from this collection to your webhook?'',
          ConsoleLog ''Added 2 NFT addresses to the webhook.'',
          ConsoleError ''Error: Webhook URL is required for non-interactive mode'',
          ConsoleLog ''Use --url option or --interactive mode''],
         Exited 1)"
    by (simp add: run_defs)
  have key: "''KEY'' \<noteq> []" by simp
  have mode: "\<not> opt_interactive (cli\<lparr>opt_url := None, opt_collection := Some ''COLL''\<rparr>)"
    by (simp add: cli_def)
  have coll: "truthy (opt_collection (cli\<lparr>opt_url := None, opt_collection := Some ''COLL''\<rparr>))"
    by simp
  have req: "fst (require_options (cli\<lparr>opt_url := None, opt_collection := Some ''COLL''\<rparr>)) =
      [ConsoleError ''Error: Webhook URL is required for non-interactive mode'',
       ConsoleLog ''Use --url option or --interactive mode'']"
    by (simp add: require_options_def)
  from collection_resolved_before_validation [OF run key mode coll]
  show ?thesis
    unfolding req by (simp add: cli_def)
qed

section \<open>Order of the merged addresses\<close>

text \<open>
  Claim C4 as stated fails on its own example: with the prefilled address \<open>A\<close>, a user who
  would track the collection \<open>[B, C]\<close> and confirm it, and the entry \<open>D,E\<close>, the collection
  is never asked for (the question is put only when nothing is prefilled) and the draft has
  the addresses \<open>[A, D, E]\<close>.
\<close>

theorem merge_order_counterexample:
  "promptForWebhookData (service pages_B_C) alice [''A''] =
   Some ([ConsoleLog (CHR 0x0A # ''Create a new webhook:''),
          Prompt ''webhookURL'' ''Enter the webhook URL:'',
          Prompt ''webhookType'' ''Select the webhook type:'',
          Prompt ''authHeader'' ''Enter an authorization header (optional):'',
          Prompt ''txnStatus'' ''Select transaction status to monitor:'',
          Prompt ''transactionTypes'' ''Select transaction types to monitor:'',
          Prompt ''accountAddresses''
            ''Enter additional account addresses to monitor (comma-separated, optional):'',
          ConsoleLog ''Added 2 additional addresses from input.''],
         Done \<lparr>webhookURL = ''https://example.com/hook'', webhookType = ''enhanced'',
               transactionTypes = [''NFT_SALE''], accountAddresses = [''A'', ''D'', ''E''],
               authHeader = None, txnStatus = Some ''all''\<rparr>)"
  by (simp add: run_defs)

text \<open>
  Claim C4, as the code has it. Interactive mode: the addresses of the draft are the prefilled
  ones, then those of the collection, then the tokens of the entry accepted at the address
  question, concatenated as they are (nothing is removed); the collection contributes only
  when nothing was prefilled, the user chose to track a collection, the lookup returned its
  addresses and the user confirmed. Command line mode: the addresses sent are those of the
  collection of \<^verbatim>\<open>--collection\<close> (if confirmed), then the tokens of \<^verbatim>\<open>--addresses\<close>.
\<close>

theorem address_merge_order:
  "(promptForWebhookData a usr prefilled = Some (tr, Done d) \<longrightarrow>
      (\<exists>coll added input.
          accountAddresses d = prefilled @ coll @ address_filter input
        \<and> first_valid (address_validate (addressRequired prefilled added))
            (u_accountAddresses usr) = Some input
        \<and> (added \<longleftrightarrow> coll \<noteq> [])
        \<and> (coll \<noteq> [] \<longrightarrow> prefilled = [] \<and> u_useCollection usr \<and> u_confirmCollection usr
             \<and> (\<exists>c reqs. c \<in> set (u_collectionAddress usr)
                   \<and> getNftAddressesFromCollection a c = Some (reqs, Inr coll)))))
 \<and> (\<not> opt_interactive opts \<and> create_action apiKey a usr opts = Some (tr', out)
      \<and> CreateWebhook d' \<in> set tr' \<longrightarrow>
      (\<exists>coll.
          accountAddresses d' = coll @ (if truthy (opt_addresses opts)
             then parse_addresses (text_of (opt_addresses opts)) else [])
        \<and> (coll \<noteq> [] \<longrightarrow> truthy (opt_collection opts) \<and> u_confirmOption usr
             \<and> (\<exists>reqs. getNftAddressesFromCollection a (text_of (opt_collection opts))
                          = Some (reqs, Inr coll)))))"
proof (intro conjI impI)
  assume "promptForWebhookData a usr prefilled = Some (tr, Done d)"
  from prompt_addresses [OF this]
  show "\<exists>coll added input.
          accountAddresses d = prefilled @ coll @ address_filter input
        \<and> first_valid (address_validate (addressRequired prefilled added))
            (u_accountAddresses usr) = Some input
        \<and> (added \<longleftrightarrow> coll \<noteq> [])
        \<and> (coll \<noteq> [] \<longrightarrow> prefilled = [] \<and> u_useCollection usr \<and> u_confirmCollection usr
             \<and> (\<exists>c reqs. c \<in> set (u_collectionAddress usr)
                   \<and> getNftAddressesFromCollection a c = Some (reqs, Inr coll)))"
    by blast
next
  assume asm: "\<not> opt_interactive opts \<and> create_action apiKey a usr opts = Some (tr', out)
      \<and> CreateWebhook d' \<in> set tr'"
  then have run: "create_action apiKey a usr opts = Some (tr', out)"
    and mode: "\<not> opt_interactive opts" and sent: "d' \<in> set (created tr')"
    by (simp_all add: created_mem)
  have "\<exists>ev1 coll ev2. resolve_collection a usr opts = Some (ev1, Done coll)
      \<and> command_line_data opts coll = Some (ev2, Done d')"
    using create_action_created [OF run]
  proof (elim disjE exE conjE)
    assume "created tr' = []"
    with sent show ?thesis by simp
  next
    fix ev1 addresses ev2 d
    assume rc: "resolve_collection a usr opts = Some (ev1, Done addresses)"
      and data: "(if opt_interactive opts then promptForWebhookData a usr addresses
               else command_line_data opts addresses) = Some (ev2, Done d)"
      and one: "created tr' = [d]"
    from one sent have "d = d'" by simp
    with rc data mode show ?thesis by (simp only: if_False) blast
  qed
  then obtain ev1 coll ev2
    where rc: "resolve_collection a usr opts = Some (ev1, Done coll)"
      and data: "command_line_data opts coll = Some (ev2, Done d')"
    by blast
  have "accountAddresses d' = coll @ (if truthy (opt_addresses opts)
             then parse_addresses (text_of (opt_addresses opts)) else [])"
    by (rule command_line_data_DoneD(9) [OF data])
  with resolve_collection_Done [OF rc]
  show "\<exists>coll.
          accountAddresses d' = coll @ (if truthy (opt_addresses opts)
             then parse_addresses (text_of (opt_addresses opts)) else [])
        \<and> (coll \<noteq> [] \<longrightarrow> truthy (opt_collection opts) \<and> u_confirmOption usr
             \<and> (\<exists>reqs. getNftAddressesFromCollection a (text_of (opt_collection opts))
                          = Some (reqs, Inr coll)))"
    by (intro exI [of _ coll]) auto
qed

text \<open>
  Claim C4 on a confirmed collection \<open>[B, C]\<close> and the entry \<open>D,E\<close>, in both modes: the
  addresses are \<open>[B, C, D, E]\<close>.
\<close>

theorem address_merge_order_witness:
  "(\<exists>tr d. promptForWebhookData (service pages_B_C) alice [] = Some (tr, Done d)
      \<and> accountAddresses d = [''B'', ''C'', ''D'', ''E'']
      \<and> (\<exists>coll added input. accountAddresses d = [] @ coll @ address_filter input
            \<and> first_valid (address_validate (addressRequired [] added))
                 (u_accountAddresses alice) = Some input
            \<and> (added \<longleftrightarrow> coll \<noteq> [])))
 \<and> (\<exists>tr d. create_action ''KEY'' (service pages_B_C) alice (cli\<lparr>opt_collection := Some ''COLL''\<rparr>)
               = Some (tr, Done ())
      \<and> CreateWebhook d \<in> set tr
      \<and> accountAddresses d = [''B'', ''C'', ''D'', ''E'']
      \<and> (\<exists>coll. accountAddresses d = coll @ parse_addresses ''D,E''))"
proof -
  let ?opts = "cli\<lparr>opt_collection := Some ''COLL''\<rparr>"
  obtain tr d where prompt: "promptForWebhookData (service pages_B_C) alice [] = Some (tr, Done d)"
    and d: "accountAddresses d = [''B'', ''C'', ''D'', ''E'']"
    by (simp add: run_defs)
  obtain tr' d' where run: "create_action ''KEY'' (service pages_B_C) alice ?opts = Some (tr', Done ())"
    and sent: "CreateWebhook d' \<in> set tr'"
    and d': "accountAddresses d' = [''B'', ''C'', ''D'', ''E'']"
    by (simp add: run_defs)
  have mode: "\<not> opt_interactive ?opts" by (simp add: cli_def)
  have given: "truthy (opt_addresses ?opts)" "text_of (opt_addresses ?opts) = ''D,E''"
    by (simp_all add: cli_def)
  note merge = address_merge_order [of "service pages_B_C" alice "[]" tr d ?opts "''KEY''" tr'
      "Done ()" d']
  from merge prompt
  have "\<exists>coll added input. accountAddresses d = [] @ coll @ address_filter input
            \<and> first_valid (address_validate (addressRequired [] added))
                 (u_accountAddresses alice) = Some input
            \<and> (added \<longleftrightarrow> coll \<noteq> [])"
    by blast
  moreover from merge mode run sent given
  have "\<exists>coll. accountAddresses d' = coll @ parse_addresses ''D,E''"
    by auto
  ultimately show ?thesis
    using prompt d run sent d' by blast
qed

section \<open>Validation in command line mode\<close>

lemma parse_addresses_nonempty: "parse_addresses s \<noteq> []"
  by (simp add: parse_addresses_def split_comma_nonempty)

lemma command_line_data_invalid_type:
  assumes "truthy (opt_url opts)" "truthy (opt_type opts)" "truthy (opt_types opts)"
      and "\<exists>t \<in> set (parse_types (text_of (opt_types opts))). t \<notin> set TRANSACTION_TYPES"
  shows "\<exists>t. t \<in> set (parse_types (text_of (opt_types opts))) \<and> t \<notin> set TRANSACTION_TYPES
          \<and> command_line_data opts addresses =
              Some ([ConsoleError (''Error: Invalid transaction type: '' @ t),
                     ConsoleLog (''Valid types are: '' @ join_comma TRANSACTION_TYPES)], Exited 1)"
proof -
  from assms(4) obtain t
    where t: "find (\<lambda>t. t \<notin> set TRANSACTION_TYPES) (parse_types (text_of (opt_types opts))) = Some t"
    by (cases "find (\<lambda>t. t \<notin> set TRANSACTION_TYPES) (parse_types (text_of (opt_types opts)))")
      (auto simp: find_None_iff)
  from find_Some_invalid [OF t] assms(1-3) t show ?thesis
    by (intro exI [of _ t]) (simp add: command_line_data_def require_options_def validate_types_def)
qed

lemma create_action_command_line:
  assumes "create_action apiKey a usr opts = Some (tr, out)"
      and "\<not> opt_interactive opts"
      and "CreateWebhook d \<in> set tr"
  shows "truthy (opt_url opts) \<and> truthy (opt_type opts) \<and> truthy (opt_types opts)
       \<and> (\<forall>t \<in> set (parse_types (text_of (opt_types opts))). t \<in> set TRANSACTION_TYPES)
       \<and> text_of (opt_type opts) \<in> set WEBHOOK_TYPES
       \<and> (truthy (opt_status opts) \<longrightarrow> text_of (opt_status opts) \<in> set TXN_STATUS_OPTIONS)
       \<and> accountAddresses d \<noteq> []
       \<and> transactionTypes d = parse_types (text_of (opt_types opts))
       \<and> created tr = [d]"
proof -
  from assms(3) have sent: "d \<in> set (created tr)" by (simp add: created_mem)
  have "\<exists>coll ev2. command_line_data opts coll = Some (ev2, Done d) \<and> created tr = [d]"
    using create_action_created [OF assms(1)]
  proof (elim disjE exE conjE)
    assume "created tr = []"
    with sent show ?thesis by simp
  next
    fix ev1 addresses ev2 d'
    assume data: "(if opt_interactive opts then promptForWebhookData a usr addresses
               else command_line_data opts addresses) = Some (ev2, Done d')"
      and one: "created tr = [d']"
    from one sent have "d' = d" by simp
    with data one assms(2) show ?thesis by (simp only: if_False) blast
  qed
  then obtain coll ev2
    where data: "command_line_data opts coll = Some (ev2, Done d)" and one: "created tr = [d]"
    by blast
  note D = command_line_data_DoneD [OF data]
  have "accountAddresses d \<noteq> []"
    unfolding D(9) using D(5) parse_addresses_nonempty by auto
  with D(1-4) D(6-8) one show ?thesis by blast
qed

text \<open>
  Claim C5. In command line mode, the validation of the transaction types lets the run go on
  exactly when every token of \<^verbatim>\<open>--types\<close>, trimmed and upper-cased, is in the enumeration.
  A token that is not ends the run without any creation request (with the options present and
  an API key configured: with the report of an invalid type and status 1).
  When every token is in the enumeration and the other checks pass (URL, type, addresses
  present, type and status valid), exactly one creation request is sent, with the parsed types.
\<close>

theorem invalid_transaction_type_aborts:
  assumes "create_action apiKey a usr opts = Some (tr, out)"
      and "\<not> opt_interactive opts"
  shows "((\<exists>ev types. validate_types opts = (ev, Done types)) \<longleftrightarrow>
            (\<forall>t \<in> set (parse_types (text_of (opt_types opts))). t \<in> set TRANSACTION_TYPES))
       \<and> ((\<exists>t \<in> set (parse_types (text_of (opt_types opts))). t \<notin> set TRANSACTION_TYPES) \<longrightarrow>
            created tr = [] \<and> out \<noteq> Done ()
          \<and> (apiKey \<noteq> [] \<and> truthy (opt_url opts) \<and> truthy (opt_type opts)
               \<and> truthy (opt_types opts) \<longrightarrow>
               out = Exited 1
             \<and> (\<exists>t. t \<in> set (parse_types (text_of (opt_types opts)))
                   \<and> t \<notin> set TRANSACTION_TYPES
                   \<and> ConsoleError (''Error: Invalid transaction type: '' @ t) \<in> set tr)))
       \<and> ((\<forall>t \<in> set (parse_types (text_of (opt_types opts))). t \<in> set TRANSACTION_TYPES)
            \<and> apiKey \<noteq> [] \<and> truthy (opt_url opts) \<and> truthy (opt_type opts)
            \<and> truthy (opt_types opts) \<and> truthy (opt_addresses opts)
            \<and> text_of (opt_type opts) \<in> set WEBHOOK_TYPES
            \<and> (\<not> truthy (opt_status opts) \<or> text_of (opt_status opts) \<in> set TXN_STATUS_OPTIONS)
            \<longrightarrow> (\<exists>d. created tr = [d]
                    \<and> transactionTypes d = parse_types (text_of (opt_types opts))))"
proof (intro conjI impI)
  show "(\<exists>ev types. validate_types opts = (ev, Done types)) \<longleftrightarrow>
            (\<forall>t \<in> set (parse_types (text_of (opt_types opts))). t \<in> set TRANSACTION_TYPES)"
    by (auto simp: validate_types_def find_None_iff split: option.splits dest: find_Some_invalid)
next
  assume bad: "\<exists>t \<in> set (parse_types (text_of (opt_types opts))). t \<notin> set TRANSACTION_TYPES"
  show none: "created tr = []"
  proof (rule ccontr)
    assume "created tr \<noteq> []"
    then obtain d where "d \<in> set (created tr)" by (cases "created tr") auto
    then have "CreateWebhook d \<in> set tr" by (simp add: created_mem)
    from create_action_command_line [OF assms this] bad show False by blast
  qed
  show "out \<noteq> Done ()"
    using create_action_created [OF assms(1)] none by auto
next
  assume bad: "\<exists>t \<in> set (parse_types (text_of (opt_types opts))). t \<notin> set TRANSACTION_TYPES"
    and pre: "apiKey \<noteq> [] \<and> truthy (opt_url opts) \<and> truthy (opt_type opts)
               \<and> truthy (opt_types opts)"
  have cfg: "ensureConfig apiKey usr = ([], Done True)"
    using pre by (simp add: ensureConfig_def)
  from create_action_run [OF assms(1)] cfg assms(2)
  obtain ev1 addresses ev2 r2
    where data: "command_line_data opts addresses = Some (ev2, r2)"
      and tr: "(\<exists>d. r2 = Done d \<and> tr = ev1 @ ev2 @ fst (submit a d) \<and> out = snd (submit a d))
             \<or> (r2 = Exited 1 \<and> tr = ev1 @ ev2 \<and> out = Exited 1)"
    by auto
  from command_line_data_invalid_type [of opts addresses] pre bad obtain t
    where t: "t \<in> set (parse_types (text_of (opt_types opts)))" "t \<notin> set TRANSACTION_TYPES"
      "command_line_data opts addresses =
         Some ([ConsoleError (''Error: Invalid transaction type: '' @ t),
                ConsoleLog (''Valid types are: '' @ join_comma TRANSACTION_TYPES)], Exited 1)"
    by blast
  with data tr have out: "out = Exited 1"
    and "tr = ev1 @ [ConsoleError (''Error: Invalid transaction type: '' @ t),
                ConsoleLog (''Valid types are: '' @ join_comma TRANSACTION_TYPES)]"
    by auto
  then have "ConsoleError (''Error: Invalid transaction type: '' @ t) \<in> set tr" by simp
  with t out show "out = Exited 1"
    "\<exists>t. t \<in> set (parse_types (text_of (opt_types opts))) \<and> t \<notin> set TRANSACTION_TYPES
        \<and> ConsoleError (''Error: Invalid transaction type: '' @ t) \<in> set tr"
    by blast+
next
  assume ok: "(\<forall>t \<in> set (parse_types (text_of (opt_types opts))). t \<in> set TRANSACTION_TYPES)
            \<and> apiKey \<noteq> [] \<and> truthy (opt_url opts) \<and> truthy (opt_type opts)
            \<and> truthy (opt_types opts) \<and> truthy (opt_addresses opts)
            \<and> text_of (opt_type opts) \<in> set WEBHOOK_TYPES
            \<and> (\<not> truthy (opt_status opts) \<or> text_of (opt_status opts) \<in> set TXN_STATUS_OPTIONS)"
  have cfg: "ensureConfig apiKey usr = ([], Done True)"
    using ok by (simp add: ensureConfig_def)
  from create_action_run [OF assms(1)] cfg assms(2)
  obtain ev1 addresses ev2 r2
    where data: "command_line_data opts addresses = Some (ev2, r2)"
      and quiet: "created (ev1 @ ev2) = []"
      and tr: "(\<exists>d. r2 = Done d \<and> tr = ev1 @ ev2 @ fst (submit a d) \<and> out = snd (submit a d))
             \<or> (r2 = Exited 1 \<and> tr = ev1 @ ev2 \<and> out = Exited 1)"
    by auto
  from ok obtain ev d where "command_line_data opts addresses = Some (ev, Done d)"
    unfolding command_line_data_Done by blast
  with data have r2: "r2 = Done d" by simp
  with data have "transactionTypes d = parse_types (text_of (opt_types opts))"
    using command_line_data_DoneD(8) by blast
  moreover from tr r2 quiet have "created tr = [d]"
    by (auto simp: created_append submit_created)
  ultimately show "\<exists>d. created tr = [d]
                    \<and> transactionTypes d = parse_types (text_of (opt_types opts))"
    by blast
qed

text \<open>Claim C5 on the types \<open>NFT_SALE,BOGUS\<close> (aborted) and \<open>nft_sale, swap\<close> (created).\<close>

theorem invalid_transaction_type_aborts_witness:
  "create_action ''KEY'' (service pages_empty) alice (cli\<lparr>opt_types := Some ''NFT_SALE,BOGUS''\<rparr>) =
     Some ([ConsoleError ''Error: Invalid transaction type: BOGUS'',
            ConsoleLog (''Valid types are: '' @ join_comma TRANSACTION_TYPES)], Exited 1)
   \<and> created [ConsoleError ''Error: Invalid transaction type: BOGUS'',
               ConsoleLog (''Valid types are: '' @ join_comma TRANSACTION_TYPES)] = []
   \<and> (\<exists>tr d. create_action ''KEY'' (service pages_empty) alice cli = Some (tr, Done ())
          \<and> created tr = [d] \<and> transactionTypes d = [''NFT_SALE'', ''SWAP''])"
proof -
  let ?bad = "cli\<lparr>opt_types := Some ''NFT_SALE,BOGUS''\<rparr>"
  let ?tr = "[ConsoleError ''Error: Invalid transaction type: BOGUS'',
              ConsoleLog (''Valid types are: '' @ join_comma TRANSACTION_TYPES)]"
  have run: "create_action ''KEY'' (service pages_empty) alice ?bad = Some (?tr, Exited 1)"
    by (simp add: run_defs)
  have mode: "\<not> opt_interactive ?bad" by (simp add: cli_def)
  have bogus: "\<exists>t \<in> set (parse_types (text_of (opt_types ?bad))). t \<notin> set TRANSACTION_TYPES"
    by (simp add: run_defs)
  obtain tr where run': "create_action ''KEY'' (service pages_empty) alice cli = Some (tr, Done ())"
    by (simp add: run_defs)
  have mode': "\<not> opt_interactive cli" by (simp add: cli_def)
  have types: "parse_types (text_of (opt_types cli)) = [''NFT_SALE'', ''SWAP'']"
    by (simp add: run_defs)
  have ok: "(\<forall>t \<in> set (parse_types (text_of (opt_types cli))). t \<in> set TRANSACTION_TYPES)
            \<and> ''KEY'' \<noteq> [] \<and> truthy (opt_url cli) \<and> truthy (opt_type cli)
            \<and> truthy (opt_types cli) \<and> truthy (opt_addresses cli)
            \<and> text_of (opt_type cli) \<in> set WEBHOOK_TYPES
            \<and> (\<not> truthy (opt_status cli) \<or> text_of (opt_status cli) \<in> set TXN_STATUS_OPTIONS)"
    unfolding types by (simp add: cli_def TRANSACTION_TYPES_def WEBHOOK_TYPES_def)
  from invalid_transaction_type_aborts [OF run mode] bogus
  have "created ?tr = []" by blast
  moreover from invalid_transaction_type_aborts [OF run' mode'] ok
  have "\<exists>d. created tr = [d] \<and> transactionTypes d = [''NFT_SALE'', ''SWAP'']"
    unfolding types by blast
  ultimately show ?thesis using run run' by blast
qed

text \<open>
  Claim C6. In command line mode, when one of \<^verbatim>\<open>--url\<close>, \<^verbatim>\<open>--type\<close>, \<^verbatim>\<open>--types\<close> is absent,
  no creation request is sent and the command does not end normally (with an API key
  configured it exits with status 1). More generally a creation request is sent only after
  every validation has passed, and then exactly once.
\<close>

theorem missing_option_never_creates:
  assumes "create_action apiKey a usr opts = Some (tr, out)"
      and "\<not> opt_interactive opts"
  shows "(\<not> (truthy (opt_url opts) \<and> truthy (opt_type opts) \<and> truthy (opt_types opts)) \<longrightarrow>
            created tr = [] \<and> (\<forall>d. CreateWebhook d \<notin> set tr) \<and> out \<noteq> Done ()
          \<and> (apiKey \<noteq> [] \<longrightarrow> out = Exited 1))
       \<and> (\<forall>d. CreateWebhook d \<in> set tr \<longrightarrow>
              truthy (opt_url opts) \<and> truthy (opt_type opts) \<and> truthy (opt_types opts)
            \<and> (\<forall>t \<in> set (parse_types (text_of (opt_types opts))). t \<in> set TRANSACTION_TYPES)
            \<and> text_of (opt_type opts) \<in> set WEBHOOK_TYPES
            \<and> (truthy (opt_status opts) \<longrightarrow> text_of (opt_status opts) \<in> set TXN_STATUS_OPTIONS)
            \<and> accountAddresses d \<noteq> []
            \<and> created tr = [d])"
proof (intro conjI impI allI)
  fix d assume "CreateWebhook d \<in> set tr"
  from create_action_command_line [OF assms this]
  show "truthy (opt_url opts)" "truthy (opt_type opts)" "truthy (opt_types opts)"
    "\<forall>t \<in> set (parse_types (text_of (opt_types opts))). t \<in> set TRANSACTION_TYPES"
    "text_of (opt_type opts) \<in> set WEBHOOK_TYPES"
    "accountAddresses d \<noteq> []" "created tr = [d]"
    by blast+
next
  fix d assume "CreateWebhook d \<in> set tr" "truthy (opt_status opts)"
  with create_action_command_line [OF assms, of d]
  show "text_of (opt_status opts) \<in> set TXN_STATUS_OPTIONS" by blast
next
  assume missing: "\<not> (truthy (opt_url opts) \<and> truthy (opt_type opts) \<and> truthy (opt_types opts))"
  have never: "CreateWebhook d \<notin> set tr" for d
    using create_action_command_line [OF assms, of d] missing by blast
  then show none: "created tr = []"
    by (cases "created tr") (auto simp: created_mem)
  show "CreateWebhook d \<notin> set tr" for d by (rule never)
  show "out \<noteq> Done ()"
    using create_action_created [OF assms(1)] none by auto
next
  assume missing: "\<not> (truthy (opt_url opts) \<and> truthy (opt_type opts) \<and> truthy (opt_types opts))"
    and key: "apiKey \<noteq> []"
  have cfg: "ensureConfig apiKey usr = ([], Done True)"
    using key by (simp add: ensureConfig_def)
  from create_action_run [OF assms(1)] cfg assms(2)
  obtain ev1 addresses ev2 r2
    where data: "command_line_data opts addresses = Some (ev2, r2)"
      and tr: "(\<exists>d. r2 = Done d \<and> tr = ev1 @ ev2 @ fst (submit a d) \<and> out = snd (submit a d))
             \<or> (r2 = Exited 1 \<and> tr = ev1 @ ev2 \<and> out = Exited 1)"
    by auto
  from command_line_data_missing [OF missing, of addresses] data have "r2 = Exited 1" by simp
  with tr show "out = Exited 1" by auto
qed

text \<open>Claim C6 on a command line without \<^verbatim>\<open>--url\<close>.\<close>

theorem missing_option_never_creates_witness:
  "create_action ''KEY'' (service pages_empty) alice (cli\<lparr>opt_url := None\<rparr>) =
     Some ([ConsoleError ''Error: Webhook URL is required for non-interactive mode'',
            ConsoleLog ''Use --url option or --interactive mode''], Exited 1)
   \<and> created [ConsoleError ''Error: Webhook URL is required for non-interactive mode'',
               ConsoleLog ''Use --url option or --interactive mode''] = []
   \<and> (\<forall>d. CreateWebhook d \<notin> set [ConsoleError ''Error: Webhook URL is required for non-interactive mode'',
               ConsoleLog ''Use --url option or --interactive mode''])"
proof -
  let ?opts = "cli\<lparr>opt_url := None\<rparr>"
  have run: "create_action ''KEY'' (service pages_empty) alice ?opts =
     Some ([ConsoleError ''Error: Webhook URL is required for non-interactive mode'',
            ConsoleLog ''Use --url option or --interactive mode''], Exited 1)"
    by (simp add: run_defs)
  have mode: "\<not> opt_interactive ?opts" by (simp add: cli_def)
  have missing: "\<not> (truthy (opt_url ?opts) \<and> truthy (opt_type ?opts) \<and> truthy (opt_types ?opts))"
    by simp
  from missing_option_never_creates [OF run mode] missing run show ?thesis by blast
qed

section \<open>Addresses of the interactive draft\<close>

text \<open>
  Claim C7. With no address accumulated, the last step of the interactive prompt reports the
  error and asks again; it blocks as long as the entries are blank, and the first entry that is
  not gives the addresses, at least one. The draft returned by the interactive prompt, and so
  the draft sent to \<^verbatim>\<open>createWebhook\<close> in interactive mode, never has an empty address list.
\<close>

theorem interactive_addresses_never_empty:
  "(require_addresses usr [] = (ev, r) \<longrightarrow>
      ev = [ConsoleLog ''Error: At least one account address is required.'',
            Prompt ''additionalAddresses''
              ''Enter account addresses to monitor (comma-separated):'']
    \<and> ((r = Blocked \<and> (\<forall>input \<in> set (u_additionalAddresses usr). trim input = []))
       \<or> (\<exists>input. input \<in> set (u_additionalAddresses usr) \<and> trim input \<noteq> []
             \<and> first_valid (\<lambda>input. trim input \<noteq> []) (u_additionalAddresses usr) = Some input
             \<and> r = Done (map trim (split_comma input))
             \<and> map trim (split_comma input) \<noteq> [])))
 \<and> (promptForWebhookData a usr prefilled = Some (tr, Done d) \<longrightarrow> accountAddresses d \<noteq> [])
 \<and> (opt_interactive opts \<and> create_action apiKey a usr opts = Some (tr', out)
      \<and> CreateWebhook d' \<in> set tr' \<longrightarrow> accountAddresses d' \<noteq> [])"
proof (intro conjI impI)
  assume ra: "require_addresses usr [] = (ev, r)"
  then show "ev = [ConsoleLog ''Error: At least one account address is required.'',
            Prompt ''additionalAddresses''
              ''Enter account addresses to monitor (comma-separated):'']"
    by (auto simp: require_addresses_def split: option.splits)
  show "(r = Blocked \<and> (\<forall>input \<in> set (u_additionalAddresses usr). trim input = []))
       \<or> (\<exists>input. input \<in> set (u_additionalAddresses usr) \<and> trim input \<noteq> []
             \<and> first_valid (\<lambda>input. trim input \<noteq> []) (u_additionalAddresses usr) = Some input
             \<and> r = Done (map trim (split_comma input))
             \<and> map trim (split_comma input) \<noteq> [])"
  proof (cases "first_valid (\<lambda>input. trim input \<noteq> []) (u_additionalAddresses usr)")
    case None
    with ra have "r = Blocked" by (auto simp: require_addresses_def)
    with None show ?thesis by (simp add: first_valid_None)
  next
    case (Some input)
    with ra have "r = Done (map trim (split_comma input))"
      by (auto simp: require_addresses_def)
    with Some first_valid_Some [OF Some] show ?thesis
      by (simp add: split_comma_nonempty)
  qed
next
  assume "promptForWebhookData a usr prefilled = Some (tr, Done d)"
  from prompt_addresses [OF this] show "accountAddresses d \<noteq> []" by blast
next
  assume asm: "opt_interactive opts \<and> create_action apiKey a usr opts = Some (tr', out)
      \<and> CreateWebhook d' \<in> set tr'"
  then have run: "create_action apiKey a usr opts = Some (tr', out)"
    and mode: "opt_interactive opts" and sent: "d' \<in> set (created tr')"
    by (simp_all add: created_mem)
  have "\<exists>addresses ev2. promptForWebhookData a usr addresses = Some (ev2, Done d')"
    using create_action_created [OF run]
  proof (elim disjE exE conjE)
    assume "created tr' = []"
    with sent show ?thesis by simp
  next
    fix ev1 addresses ev2 d
    assume data: "(if opt_interactive opts then promptForWebhookData a usr addresses
               else command_line_data opts addresses) = Some (ev2, Done d)"
      and one: "created tr' = [d]"
    from one sent have "d = d'" by simp
    with data mode show ?thesis by (simp only: if_True) blast
  qed
  then obtain addresses ev2
    where "promptForWebhookData a usr addresses = Some (ev2, Done d')"
    by blast
  from prompt_addresses [OF this] show "accountAddresses d' \<noteq> []" by blast
qed

text \<open>Claim C7 on the entry \<open>F\<close> at the repeated question, and on a whole interactive run.\<close>

theorem interactive_addresses_never_empty_witness:
  "require_addresses alice [] =
     ([ConsoleLog ''Error: At least one account address is required.'',
       Prompt ''additionalAddresses'' ''Enter account addresses to monitor (comma-separated):''],
      Done [''F''])
 \<and> (\<exists>tr d. promptForWebhookData (service pages_empty) alice [] = Some (tr, Done d)
       \<and> accountAddresses d = [''D'', ''E''] \<and> accountAddresses d \<noteq> [])
 \<and> (\<exists>tr d. create_action ''KEY'' (service pages_empty) alice (cli\<lparr>opt_interactive := True\<rparr>)
               = Some (tr, Done ())
       \<and> CreateWebhook d \<in> set tr \<and> accountAddresses d \<noteq> [])"
proof -
  let ?opts = "cli\<lparr>opt_interactive := True\<rparr>"
  have again: "require_addresses alice [] =
     ([ConsoleLog ''Error: At least one account address is required.'',
       Prompt ''additionalAddresses'' ''Enter account addresses to monitor (comma-separated):''],
      Done [''F''])"
    by (simp add: run_defs)
  obtain tr d where prompt: "promptForWebhookData (service pages_empty) alice [] = Some (tr, Done d)"
    and d: "accountAddresses d = [''D'', ''E'']"
    by (simp add: run_defs)
  obtain tr' d' where run: "create_action ''KEY'' (service pages_empty) alice ?opts = Some (tr', Done ())"
    and sent: "CreateWebhook d' \<in> set tr'"
    by (simp add: run_defs)
  have mode: "opt_interactive ?opts" by simp
  note inst = interactive_addresses_never_empty [of alice _ _ "service pages_empty" "[]" tr d
      ?opts "''KEY''" tr' "Done ()" d']
  from inst prompt have "accountAddresses d \<noteq> []" by blast
  moreover from inst mode run sent have "accountAddresses d' \<noteq> []" by blast
  ultimately show ?thesis
    using again prompt d run sent by blast
qed

text \<open>
  In a run of the prompt the repeated question is in fact never asked: whatever the collection
  step and the address question return, at least one address is there, and the last step
  leaves the addresses as they are.
\<close>

lemma repeated_question_not_reached:
  assumes "process_collection a usr prefilled uc = Some (ev3, Done acc)"
      and "address_question usr prefilled acc = (ev4, Done addresses)"
  shows "require_addresses usr addresses = ([], Done addresses)"
proof -
  obtain useCollection c where uc: "uc = (useCollection, c)" by (cases uc)
  obtain acc0 added where acc: "acc = (acc0, added)" by (cases acc)
  from process_collection_Done [OF assms(1) [unfolded uc acc]]
  have "prefilled \<noteq> [] \<or> added \<longrightarrow> acc0 \<noteq> []" by auto
  from address_question_nonempty [OF assms(2) [unfolded acc] this]
  show ?thesis by (simp add: require_addresses_def)
qed

text \<open>
  Claim C9. When the user does not confirm the inclusion of the collection addresses, the
  accumulated addresses stay what they were and the flag \<^verbatim>\<open>collectionAddressesAdded\<close> stays
  false; the draft is the very draft the same answers give when no collection is tracked at
  all. In the action, declining the confirmation of \<^verbatim>\<open>--collection\<close> leaves the addresses
  empty.
\<close>

theorem declined_collection_leaves_addresses:
  "(\<not> u_confirmCollection usr
      \<and> process_collection a usr prefilled uc = Some (ev, Done (addresses, added)) \<longrightarrow>
      addresses = prefilled \<and> \<not> added)
 \<and> (\<not> u_confirmCollection usr
      \<and> promptForWebhookData a usr prefilled = Some (tr, Done d) \<longrightarrow>
      (\<exists>tr'. promptForWebhookData a (usr\<lparr>u_useCollection := False\<rparr>) prefilled
                = Some (tr', Done d)))
 \<and> (\<not> u_confirmOption usr
      \<and> resolve_collection a usr opts = Some (ev', Done addresses') \<longrightarrow> addresses' = [])"
proof (intro conjI impI)
  assume "\<not> u_confirmCollection usr
      \<and> process_collection a usr prefilled uc = Some (ev, Done (addresses, added))"
  then show "addresses = prefilled" "\<not> added"
    using process_collection_declined [of a usr prefilled uc ev addresses added] by blast+
next
  assume "\<not> u_confirmOption usr \<and> resolve_collection a usr opts = Some (ev', Done addresses')"
  then show "addresses' = []"
    using resolve_collection_Done [of a usr opts ev' addresses'] by blast
next
  assume asm: "\<not> u_confirmCollection usr
      \<and> promptForWebhookData a usr prefilled = Some (tr, Done d)"
  let ?usr = "usr\<lparr>u_useCollection := False\<rparr>"
  from asm obtain ev1 basicAnswers ev2 uc ev3 acc ev4 addresses ev5 addresses'
    where bq: "basic_questions usr = (ev1, Done basicAnswers)"
      and cq: "collection_questions usr prefilled = (ev2, Done uc)"
      and pc: "process_collection a usr prefilled uc = Some (ev3, Done acc)"
      and aq: "address_question usr prefilled acc = (ev4, Done addresses)"
      and ra: "require_addresses usr addresses = (ev5, Done addresses')"
      and d: "d = prompt_result basicAnswers addresses'"
    unfolding promptForWebhookData_Done by blast
  obtain acc0 added where acc: "acc = (acc0, added)" by (cases acc)
  from process_collection_declined [OF pc [unfolded acc]] asm
  have acc': "acc = (prefilled, False)" by (simp add: acc)
  have bq': "basic_questions ?usr = (ev1, Done basicAnswers)"
    using bq by (simp add: basic_questions_def split: option.splits)
  obtain ev2' where cq': "collection_questions ?usr prefilled = (ev2', Done (False, []))"
    by (cases "prefilled = []") (simp_all add: collection_questions_def)
  have pc': "process_collection a ?usr prefilled (False, []) = Some ([], Done acc)"
    by (simp add: process_collection_def acc')
  have aq': "address_question ?usr prefilled acc = (ev4, Done addresses)"
    using aq by (simp add: address_question_def acc' split: option.splits)
  have ra': "require_addresses ?usr addresses = (ev5, Done addresses')"
    using ra by (simp add: require_addresses_def split: option.splits if_splits)
  have "promptForWebhookData a ?usr prefilled =
      Some (ConsoleLog (CHR 0x0A # ''Create a new webhook:'') # ev1 @ ev2' @ [] @ ev4 @ ev5,
            Done d)"
    unfolding promptForWebhookData_Done using bq' cq' pc' aq' ra' d by blast
  then show "\<exists>tr'. promptForWebhookData a ?usr prefilled = Some (tr', Done d)"
    by blast
qed

text \<open>Claim C9 on the collection \<open>[B, C]\<close>, resolved and then declined.\<close>

theorem declined_collection_leaves_addresses_witness:
  "process_collection (service pages_B_C) (alice\<lparr>u_confirmCollection := False\<rparr>) []
      (True, ''COLL'') =
     Some ([SpinnerStart ''Fetching NFTs from collection COLL...'', DasRequest ''COLL'' 1,
            SpinnerSucceed ''Found 2 NFTs in collection COLL'',
            Prompt ''confirm''
              ''Do you want to add 2 NFT addresses from this collection to your webhook?'',
            ConsoleLog ''NFT addresses from collection not added.''],
           Done ([], False))
 \<and> (\<exists>tr tr' d.
        promptForWebhookData (service pages_B_C) (alice\<lparr>u_confirmCollection := False\<rparr>) []
          = Some (tr, Done d)
      \<and> accountAddresses d = [''D'', ''E'']
      \<and> promptForWebhookData (service pages_B_C)
           (alice\<lparr>u_confirmCollection := False, u_useCollection := False\<rparr>) []
          = Some (tr', Done d))
 \<and> (\<exists>ev. resolve_collection (service pages_B_C) (alice\<lparr>u_confirmOption := False\<rparr>)
            (cli\<lparr>opt_collection := Some ''COLL''\<rparr>) = Some (ev, Done []))"
proof -
  let ?usr = "alice\<lparr>u_confirmCollection := False\<rparr>"
  let ?usr' = "alice\<lparr>u_confirmOption := False\<rparr>"
  let ?opts = "cli\<lparr>opt_collection := Some ''COLL''\<rparr>"
  have no: "\<not> u_confirmCollection ?usr" "\<not> u_confirmOption ?usr'" by simp_all
  have pc: "process_collection (service pages_B_C) ?usr [] (True, ''COLL'') =
     Some ([SpinnerStart ''Fetching NFTs from collection COLL...'', DasRequest ''COLL'' 1,
            SpinnerSucceed ''Found 2 NFTs in collection COLL'',
            Prompt ''confirm''
              ''Do you want to add 2 NFT addresses from this collection to your webhook?'',
            ConsoleLog ''NFT addresses from collection not added.''],
           Done ([], False))"
    by (simp add: run_defs)
  obtain tr d where prompt: "promptForWebhookData (service pages_B_C) ?usr [] = Some (tr, Done d)"
    and d: "accountAddresses d = [''D'', ''E'']"
    by (simp add: run_defs)
  obtain ev addresses where rc: "resolve_collection (service pages_B_C) ?usr' ?opts
      = Some (ev, Done addresses)"
    by (simp add: run_defs)
  note inst =
    declined_collection_leaves_addresses [where usr = ?usr and a = "service pages_B_C"
      and prefilled = "[]" and tr = tr and d = d]
    declined_collection_leaves_addresses [where usr = ?usr' and a = "service pages_B_C"
      and opts = ?opts and ev' = ev and addresses' = addresses]
  from inst(1) no(1) prompt obtain tr'
    where "promptForWebhookData (service pages_B_C) (?usr\<lparr>u_useCollection := False\<rparr>) []
             = Some (tr', Done d)"
    by blast
  moreover from inst(2) no(2) rc have "addresses = []" by blast
  ultimately show ?thesis using pc prompt d rc by blast
qed

lemma trim_empty_iff: "trim s = [] \<longleftrightarrow> (\<forall>c \<in> set s. isWhiteSpace c)"
proof -
  have "trim s = [] \<longleftrightarrow> (\<forall>c \<in> set (dropWhile isWhiteSpace s). isWhiteSpace c)"
    by (simp add: trim_def dropWhile_eq_Nil_conv)
  also have "\<dots> \<longleftrightarrow> dropWhile isWhiteSpace s = []"
  proof
    assume all: "\<forall>c \<in> set (dropWhile isWhiteSpace s). isWhiteSpace c"
    show "dropWhile isWhiteSpace s = []"
    proof (rule ccontr)
      assume ne: "dropWhile isWhiteSpace s \<noteq> []"
      then have "\<not> isWhiteSpace (hd (dropWhile isWhiteSpace s))" by (rule hd_dropWhile)
      moreover from ne have "hd (dropWhile isWhiteSpace s) \<in> set (dropWhile isWhiteSpace s)"
        by simp
      ultimately show False using all by blast
    qed
  next
    assume "dropWhile isWhiteSpace s = []"
    then show "\<forall>c \<in> set (dropWhile isWhiteSpace s). isWhiteSpace c"
      by (simp del: dropWhile_eq_Nil_conv)
  qed
  also have "\<dots> \<longleftrightarrow> (\<forall>c \<in> set s. isWhiteSpace c)"
    by (simp add: dropWhile_eq_Nil_conv)
  finally show ?thesis .
qed

lemma trim_Nil: "trim [] = []"
  by (simp add: trim_def)

lemma comma_not_space: "\<not> isWhiteSpace (CHR '','')"
  by (simp add: isWhiteSpace_def)

lemma commas_only_tokens:
  assumes "\<forall>c \<in> set input. c = CHR '','' \<or> isWhiteSpace c"
  shows "map trim (split_comma input) = replicate (Suc (count_list input (CHR '',''))) []"
  using assms
proof (induction input)
  case Nil
  show ?case by (simp add: trim_Nil)
next
  case (Cons c cs)
  then have IH: "map trim (split_comma cs) = replicate (Suc (count_list cs (CHR '',''))) []"
    by simp
  show ?case
  proof (cases "c = CHR '',''")
    case True
    with IH show ?thesis by (simp add: trim_Nil)
  next
    case False
    with Cons.prems have space: "isWhiteSpace c" by simp
    obtain t ts where split: "split_comma cs = t # ts"
      using split_comma_nonempty [of cs] by (cases "split_comma cs") auto
    with IH have t: "trim t = []" and ts: "map trim ts = replicate (count_list cs (CHR '','')) []"
      by simp_all
    from t space have "trim (c # t) = []"
      by (simp add: trim_empty_iff)
    with False split ts show ?thesis by simp
  qed
qed

text \<open>
  Claim C10, with the question's \<^verbatim>\<open>validate\<close> and \<^verbatim>\<open>filter\<close> each applied to the text
  entered. An entry at the address question whose trimmed form is not empty passes the
  validation, and its comma-separated tokens, trimmed, are appended as they are to the
  addresses of the draft the prompt returns. An interactive run of the creation command that
  is not blocked at a question sends exactly one draft to \<^verbatim>\<open>createWebhook\<close>, and the
  addresses of that draft end with these tokens. For an entry made of commas and white space
  only, with at least one comma, the tokens are empty strings, one more than there are
  commas. Empty tokens inside an entry are kept: \<open>a,,b\<close> gives \<open>a\<close>, the empty string and
  \<open>b\<close>.
\<close>

theorem commas_only_entry_is_submitted:
  "(u_accountAddresses usr = input # later \<and> trim input \<noteq> []
      \<and> promptForWebhookData a usr prefilled = Some (tr, Done d) \<longrightarrow>
      address_validate True input
    \<and> (\<exists>coll. accountAddresses d = prefilled @ coll @ map trim (split_comma input)))
 \<and> (u_accountAddresses usr = input # later \<and> trim input \<noteq> []
      \<and> opt_interactive opts \<and> create_action apiKey a usr opts = Some (tr', out)
      \<and> out \<noteq> Blocked \<longrightarrow>
      (\<exists>d' before. created tr' = [d'] \<and> CreateWebhook d' \<in> set tr'
         \<and> accountAddresses d' = before @ map trim (split_comma input)))
 \<and> ((\<forall>c \<in> set input'. c = CHR '','' \<or> isWhiteSpace c) \<and> CHR '','' \<in> set input' \<longrightarrow>
      trim input' \<noteq> [] \<and> address_validate True input'
    \<and> address_filter input' = replicate (Suc (count_list input' (CHR '',''))) [])
 \<and> address_filter ''a,,b'' = [''a'', [], ''b'']"
proof (intro conjI impI)
  have tokens: "\<exists>coll. accountAddresses d0 = prefilled0 @ coll @ map trim (split_comma input)"
    if entry: "u_accountAddresses usr = input # later" "trim input \<noteq> []"
      and run: "promptForWebhookData a usr prefilled0 = Some (tr0, Done d0)"
    for prefilled0 tr0 d0
  proof -
    from entry have first:
      "first_valid (address_validate required) (u_accountAddresses usr) = Some input"
      for required
      by (simp add: address_validate_def)
    from prompt_addresses [OF run] obtain coll added input0
      where d: "accountAddresses d0 = prefilled0 @ coll @ address_filter input0"
        and fv: "first_valid (address_validate (addressRequired prefilled0 added))
               (u_accountAddresses usr) = Some input0"
      by blast
    from fv first have "input0 = input" by simp
    with d entry(2) address_filter_nonempty [of input] show ?thesis by auto
  qed
  {
    assume asm: "u_accountAddresses usr = input # later \<and> trim input \<noteq> []
        \<and> promptForWebhookData a usr prefilled = Some (tr, Done d)"
    then show "address_validate True input" by (simp add: address_validate_def)
    from asm tokens [of prefilled tr d]
    show "\<exists>coll. accountAddresses d = prefilled @ coll @ map trim (split_comma input)"
      by blast
  }
  {
    assume asm: "u_accountAddresses usr = input # later \<and> trim input \<noteq> []
        \<and> opt_interactive opts \<and> create_action apiKey a usr opts = Some (tr', out)
        \<and> out \<noteq> Blocked"
    then have run: "create_action apiKey a usr opts = Some (tr', out)"
      and mode: "opt_interactive opts" and out: "out \<noteq> Blocked"
      by simp_all
    have "\<exists>addresses ev2 d'. promptForWebhookData a usr addresses = Some (ev2, Done d')
        \<and> created tr' = [d']"
      using create_action_run [OF run]
    proof (elim disjE exE conjE)
      assume "out = Blocked"
      with out show ?thesis by simp
    next
      fix ev0 ev1 addresses ev2 r2 d'
      assume data: "(if opt_interactive opts then promptForWebhookData a usr addresses
                 else command_line_data opts addresses) = Some (ev2, r2)"
        and quiet: "created (ev0 @ ev1 @ ev2) = []"
        and r2: "r2 = Done d'" and tr: "tr' = ev0 @ ev1 @ ev2 @ fst (submit a d')"
      have "created tr' = [d']"
        unfolding tr using quiet created_append [of "ev0 @ ev1 @ ev2" "fst (submit a d')"]
        by (simp add: submit_created)
      with data mode r2 show ?thesis by (simp only: if_True) blast
    next
      assume "out = Blocked"
      with out show ?thesis by simp
    next
      assume "\<not> opt_interactive opts"
      with mode show ?thesis by simp
    qed
    then obtain addresses ev2 d'
      where prompt: "promptForWebhookData a usr addresses = Some (ev2, Done d')"
        and one: "created tr' = [d']"
      by blast
    from asm tokens [OF _ _ prompt] obtain coll
      where "accountAddresses d' = addresses @ coll @ map trim (split_comma input)"
      by blast
    then have "accountAddresses d' = (addresses @ coll) @ map trim (split_comma input)"
      by simp
    moreover from one have "CreateWebhook d' \<in> set tr'" by (simp add: created_mem)
    ultimately
    show "\<exists>d' before. created tr' = [d'] \<and> CreateWebhook d' \<in> set tr'
         \<and> accountAddresses d' = before @ map trim (split_comma input)"
      using one by blast
  }
  {
    assume asm: "(\<forall>c \<in> set input'. c = CHR '','' \<or> isWhiteSpace c) \<and> CHR '','' \<in> set input'"
    then show ne: "trim input' \<noteq> []"
      using comma_not_space by (auto simp: trim_empty_iff)
    then show "address_validate True input'" by (simp add: address_validate_def)
    from ne address_filter_nonempty [of input'] commas_only_tokens [of input'] asm
    show "address_filter input' = replicate (Suc (count_list input' (CHR '',''))) []"
      by simp
  }
  show "address_filter ''a,,b'' = [''a'', [], ''b'']"
    by (simp add: address_filter_def trim_def isWhiteSpace_def)
qed

text \<open>
  Claim C10 on the entry \<open>,\<close>: the draft of the prompt has two empty addresses, and so has
  the draft sent to \<^verbatim>\<open>createWebhook\<close> by the interactive command; after a confirmed
  collection \<open>[B, C]\<close> given by \<^verbatim>\<open>--collection\<close>, where the question does not require an
  entry, the draft sent has the addresses \<open>B\<close>, \<open>C\<close> and two empty ones.
\<close>

theorem commas_only_entry_is_submitted_witness:
  "(\<exists>tr d. promptForWebhookData (service pages_empty)
              (alice\<lparr>u_accountAddresses := ['',''], u_useCollection := False\<rparr>) []
            = Some (tr, Done d)
      \<and> accountAddresses d = [[], []]
      \<and> (\<exists>coll. accountAddresses d = [] @ coll @ map trim (split_comma '','')))
 \<and> (\<exists>tr d. create_action ''KEY'' (service pages_empty)
              (alice\<lparr>u_accountAddresses := ['',''], u_useCollection := False\<rparr>)
              (cli\<lparr>opt_interactive := True\<rparr>)
            = Some (tr, Done ())
      \<and> created tr = [d] \<and> CreateWebhook d \<in> set tr \<and> accountAddresses d = [[], []])
 \<and> (\<exists>tr d. create_action ''KEY'' (service pages_B_C) (alice\<lparr>u_accountAddresses := ['','']\<rparr>)
              (cli\<lparr>opt_interactive := True, opt_collection := Some ''COLL''\<rparr>)
            = Some (tr, Done ())
      \<and> created tr = [d] \<and> CreateWebhook d \<in> set tr
      \<and> accountAddresses d = [''B'', ''C'', [], []])
 \<and> trim '','' \<noteq> [] \<and> address_validate True '',''
 \<and> address_filter '','' = replicate (Suc (count_list '','' (CHR '',''))) []"
proof -
  let ?usr = "alice\<lparr>u_accountAddresses := ['',''], u_useCollection := False\<rparr>"
  let ?usr' = "alice\<lparr>u_accountAddresses := ['','']\<rparr>"
  let ?opts = "cli\<lparr>opt_interactive := True\<rparr>"
  let ?opts' = "cli\<lparr>opt_interactive := True, opt_collection := Some ''COLL''\<rparr>"
  obtain tr d where prompt: "promptForWebhookData (service pages_empty) ?usr [] = Some (tr, Done d)"
    and d: "accountAddresses d = [[], []]"
    by (simp add: run_defs)
  obtain tr1 where run1: "create_action ''KEY'' (service pages_empty) ?usr ?opts = Some (tr1, Done ())"
    and d1: "map accountAddresses (created tr1) = [[[], []]]"
    by (simp add: run_defs)
  obtain tr2 where run2: "create_action ''KEY'' (service pages_B_C) ?usr' ?opts' = Some (tr2, Done ())"
    and d2: "map accountAddresses (created tr2) = [[''B'', ''C'', [], []]]"
    by (simp add: run_defs)
  have entry: "u_accountAddresses ?usr = '','' # []" "u_accountAddresses ?usr' = '','' # []"
    by simp_all
  have mode: "opt_interactive ?opts" "opt_interactive ?opts'" by simp_all
  have returned: "Done () \<noteq> (Blocked :: unit outcome)" by simp
  have ne: "trim '','' \<noteq> []" by (simp add: trim_def isWhiteSpace_def)
  have commas: "(\<forall>c \<in> set '',''. c = CHR '','' \<or> isWhiteSpace c) \<and> CHR '','' \<in> set '',''"
    by simp
  note inst = commas_only_entry_is_submitted [where usr = ?usr and input = "'',''" and later = "[]"
      and a = "service pages_empty" and prefilled = "[]" and tr = tr and d = d
      and opts = ?opts and apiKey = "''KEY''" and tr' = tr1 and out = "Done ()"
      and input' = "'',''"]
  note inst' = commas_only_entry_is_submitted [where usr = ?usr' and input = "'',''"
      and later = "[]" and a = "service pages_B_C" and opts = ?opts' and apiKey = "''KEY''"
      and tr' = tr2 and out = "Done ()"]
  from inst entry(1) ne prompt
  have c1: "\<exists>coll. accountAddresses d = [] @ coll @ map trim (split_comma '','')" by blast
  from inst entry(1) ne mode(1) run1 returned
  obtain d1' where s1: "created tr1 = [d1']" "CreateWebhook d1' \<in> set tr1" by blast
  with d1 have a1: "accountAddresses d1' = [[], []]" by simp
  from inst' entry(2) ne mode(2) run2 returned
  obtain d2' where s2: "created tr2 = [d2']" "CreateWebhook d2' \<in> set tr2" by blast
  with d2 have a2: "accountAddresses d2' = [''B'', ''C'', [], []]" by simp
  from inst commas
  have c4: "trim '','' \<noteq> [] \<and> address_validate True '',''
      \<and> address_filter '','' = replicate (Suc (count_list '','' (CHR '',''))) []"
    by blast
  from prompt d c1 have p1: "\<exists>tr d. promptForWebhookData (service pages_empty) ?usr [] = Some (tr, Done d)
      \<and> accountAddresses d = [[], []]
      \<and> (\<exists>coll. accountAddresses d = [] @ coll @ map trim (split_comma '',''))"
    by blast
  from run1 s1 a1 have p2: "\<exists>tr d. create_action ''KEY'' (service pages_empty) ?usr ?opts
            = Some (tr, Done ())
      \<and> created tr = [d] \<and> CreateWebhook d \<in> set tr \<and> accountAddresses d = [[], []]"
    by blast
  from run2 s2 a2 have p3: "\<exists>tr d. create_action ''KEY'' (service pages_B_C) ?usr' ?opts'
            = Some (tr, Done ())
      \<and> created tr = [d] \<and> CreateWebhook d \<in> set tr
      \<and> accountAddresses d = [''B'', ''C'', [], []]"
    by blast
  from p1 p2 p3 c4 show ?thesis by (intro conjI) simp_all
qed

section \<open>Deletion\<close>

text \<open>
  Claim C8. Whenever the delete request was sent: if the service answers
  \<^verbatim>\<open>{success: false}\<close>, the command returns normally (no \<^verbatim>\<open>process.exit\<close>), its last
  output is the spinner failure ``Failed to delete webhook <id>'' and nothing was written by
  the error handler; if the request itself fails, the handler prints
  ``Error deleting webhook: <message>'' and exits with status 1. The two messages differ
  whatever the identifier and the error.
\<close>

theorem delete_unsuccessful_reported_without_throwing:
  assumes "delete_action apiKey a usr ident force = Some (tr, out)"
      and "DeleteWebhook ident \<in> set tr"
  shows "(deleteWebhook a ident = Inr False \<longrightarrow>
            out = Done () \<and> last tr = SpinnerFail (''Failed to delete webhook '' @ ident)
            \<and> (\<forall>m. ConsoleError m \<notin> set tr))
       \<and> (\<forall>err. deleteWebhook a ident = Inl err \<longrightarrow>
            out = Exited 1
            \<and> last tr = ConsoleError (''Error deleting webhook: '' @ request_error err))
       \<and> (\<forall>m. ''Failed to delete webhook '' @ ident \<noteq> ''Error deleting webhook: '' @ m)"
proof (intro conjI impI allI)
  fix m show "''Failed to delete webhook '' @ ident \<noteq> ''Error deleting webhook: '' @ m"
    by simp
next
  assume "deleteWebhook a ident = Inr False"
  with assms show "out = Done ()"
    by (auto simp: delete_action_def ensureConfig_def confirm_deletion_def delete_request_def
        split: if_splits option.splits)
next
  assume "deleteWebhook a ident = Inr False"
  with assms show "last tr = SpinnerFail (''Failed to delete webhook '' @ ident)"
    by (auto simp: delete_action_def ensureConfig_def confirm_deletion_def delete_request_def
        split: if_splits option.splits)
next
  fix m
  assume "deleteWebhook a ident = Inr False"
  with assms show "ConsoleError m \<notin> set tr"
    by (auto simp: delete_action_def ensureConfig_def confirm_deletion_def delete_request_def
        split: if_splits option.splits)
next
  fix err
  assume "deleteWebhook a ident = Inl err"
  with assms show "out = Exited 1"
    by (auto simp: delete_action_def ensureConfig_def confirm_deletion_def delete_request_def
        split: if_splits option.splits)
next
  fix err
  assume "deleteWebhook a ident = Inl err"
  with assms show "last tr = ConsoleError (''Error deleting webhook: '' @ request_error err)"
    by (auto simp: delete_action_def ensureConfig_def confirm_deletion_def delete_request_def
        split: if_splits option.splits)
qed

text \<open>Claim C8 on a service that answers \<^verbatim>\<open>{success: false}\<close>, with \<^verbatim>\<open>--force\<close>.\<close>

theorem delete_unsuccessful_reported_witness:
  "delete_action ''KEY'' (service pages_empty) alice ''wh-1'' True =
     Some ([SpinnerStart ''Deleting webhook wh-1...'', DeleteWebhook ''wh-1'',
            SpinnerFail ''Failed to delete webhook wh-1''], Done ())
   \<and> deleteWebhook (service pages_empty) ''wh-1'' = Inr False
   \<and> (\<forall>m. ConsoleError m \<notin> set [SpinnerStart ''Deleting webhook wh-1...'', DeleteWebhook ''wh-1'',
            SpinnerFail ''Failed to delete webhook wh-1''])"
proof -
  have run: "delete_action ''KEY'' (service pages_empty) alice ''wh-1'' True =
     Some ([SpinnerStart ''Deleting webhook wh-1...'', DeleteWebhook ''wh-1'',
            SpinnerFail ''Failed to delete webhook wh-1''], Done ())"
    by (simp add: delete_action_def ensureConfig_def confirm_deletion_def delete_request_def
        service_def)
  have sent: "DeleteWebhook ''wh-1'' \<in> set [SpinnerStart ''Deleting webhook wh-1...'',
      DeleteWebhook ''wh-1'', SpinnerFail ''Failed to delete webhook wh-1'']"
    by simp
  show ?thesis
    using delete_unsuccessful_reported_without_throwing [OF run sent] run
    by (simp add: service_def)
qed

end
